theory Spec2Isabelle
  imports Main
begin

section \<open>Data model\<close>

text \<open>
  The messaging core of the backend: \<^verbatim>\<open>controllers/messageController.js\<close> over the
  Mongoose schemas \<^verbatim>\<open>Message\<close> and \<^verbatim>\<open>User\<close>. Timestamps are milliseconds, strings are
  lists of code units. A handler is a function from the request and the state to a result
  and the new state; a failing exit is an \<open>Inl\<close> result.
\<close>

type_synonym time = int

subsection \<open>Object ids and their text\<close>

text \<open>
  An object id is written as 24 hexadecimal digits. \<^verbatim>\<open>toString\<close> and the \<^verbatim>\<open>id\<close> getter of
  a document yield the lower-case spelling; an id is represented by that spelling. Casting
  a string to an object id, which Mongoose does to every id it is handed in a filter or a
  document, accepts the digits \<^verbatim>\<open>a\<close> to \<^verbatim>\<open>f\<close> in either case and fails on any other string.
  (Drivers before BSON 5 also took any string of 12 bytes for an id; that form is not
  modelled.)
\<close>

definition is_lower_hex :: "char \<Rightarrow> bool" where
  "is_lower_hex c = (c \<in> set ''0123456789abcdef'')"

definition is_hex :: "char \<Rightarrow> bool" where
  "is_hex c = (c \<in> set ''0123456789abcdefABCDEF'')"

definition lower_hex :: "char \<Rightarrow> char" where
  "lower_hex c =
     (if c = CHR ''A'' then CHR ''a'' else if c = CHR ''B'' then CHR ''b''
      else if c = CHR ''C'' then CHR ''c'' else if c = CHR ''D'' then CHR ''d''
      else if c = CHR ''E'' then CHR ''e'' else if c = CHR ''F'' then CHR ''f'' else c)"

definition canonical :: "string \<Rightarrow> bool" where
  "canonical s = (length s = 24 \<and> list_all is_lower_hex s)"

typedef object_id = "{s. canonical s}"
  morphisms toHexString ObjectId
  by (rule exI[of _ "replicate 24 CHR ''0''"])
    (simp add: canonical_def is_lower_hex_def list_all_iff)

definition cast_id :: "string \<Rightarrow> object_id option" where
  "cast_id s =
     (if length s = 24 \<and> list_all is_hex s then Some (ObjectId (map lower_hex s)) else None)"

subsection \<open>Request fields\<close>

text \<open>
  A field of a request body: absent (\<^verbatim>\<open>undefined\<close>), \<^verbatim>\<open>null\<close>, or a string, read after
  the server's sanitising middleware has rewritten it. The falsy ones are the absent field,
  \<^verbatim>\<open>null\<close> and the empty string. The fields of a multipart form are strings or absent;
  a JSON body can also carry \<^verbatim>\<open>null\<close>, and numbers, booleans, arrays and objects, which
  are not modelled.
\<close>

datatype 'a field = Absent | Null | Given 'a

fun falsy :: "string field \<Rightarrow> bool" where
  "falsy Absent = True"
| "falsy Null = True"
| "falsy (Given s) = (s = [])"

subsection \<open>Documents\<close>

text \<open>The projection of a user document that the controller reads.\<close>

record user =
  name :: string
  email :: string
  profilePicture :: string

text \<open>A file as the upload middleware hands it over (\<^verbatim>\<open>file.name\<close>, \<^verbatim>\<open>file.size\<close>,
  \<^verbatim>\<open>file.mimetype\<close>).\<close>

record upload_file =
  file_name :: string
  file_size :: nat
  file_mimetype :: string

text \<open>A form field of \<^verbatim>\<open>req.files\<close> holds one file or an array of files.\<close>

datatype upload = Single upload_file | Many "upload_file list"

text \<open>The \<^verbatim>\<open>attachments\<close> sub-documents of the message schema.\<close>

record attachment =
  url :: string
  filename :: string
  originalName :: string
  size_a :: nat
  mimetype :: string

text \<open>
  The message schema, with the \<^verbatim>\<open>timestamps\<close> field the controller sorts on. A stored
  \<^verbatim>\<open>messageType\<close> is one of the enum strings or \<^verbatim>\<open>null\<close> (\<open>None\<close>).
\<close>

record message =
  m_id :: object_id
  sender :: object_id
  receiver :: object_id
  content :: string
  messageType :: "string option"
  attachments :: "attachment list"
  isRead :: bool
  readAt :: "time option"
  createdAt :: time

text \<open>
  What the controller pushes through Socket.io: the room (a string, the text of a user
  id as the handler has it), the event name, the payload.
\<close>

datatype payload =
    MessageEvent message
  | ConversationUpdated string message
  | MessagesRead string "object_id list"
  | MessageDeleted string string
  | TypingIndicator string bool string

record event =
  room :: string
  event_name :: string
  event_payload :: payload

text \<open>
  The state the handlers run against: the \<^verbatim>\<open>users\<close> and \<^verbatim>\<open>messages\<close> collections (the
  latter in insertion order), the files moved into the uploads directory, whether
  \<^verbatim>\<open>req.app.get('socketio')\<close> yields an instance, and what was emitted.
\<close>

record state =
  users :: "object_id \<rightharpoonup> user"
  messages :: "message list"
  uploads :: "string list"
  socketio :: bool
  emitted :: "event list"

text \<open>
  What a request brings besides its body: the authenticated user (\<^verbatim>\<open>req.user\<close>, a user
  document with its \<^verbatim>\<open>_id\<close> and \<^verbatim>\<open>name\<close>), the clock (\<^verbatim>\<open>new Date()\<close>), the generated name
  of the k-th staged file (\<^verbatim>\<open>Date.now()\<close> and \<^verbatim>\<open>Math.random()\<close> in the source) and the
  \<^verbatim>\<open>_id\<close> that a document created by this request is given.
\<close>

record env =
  req_user :: object_id
  req_user_name :: string
  now :: time
  gen_file_name :: "nat \<Rightarrow> upload_file \<Rightarrow> string"
  new_id :: object_id

text \<open>\<^verbatim>\<open>req.user.id\<close>: the id getter, the text of \<^verbatim>\<open>req.user._id\<close>.\<close>

definition req_user_id :: "env \<Rightarrow> string" where
  "req_user_id e = toHexString (req_user e)"

subsection \<open>Failures\<close>

text \<open>
  Every failing exit of the handlers. The first six and the two not-found exits of
  \<^verbatim>\<open>getConversation\<close> and \<^verbatim>\<open>deleteMessage\<close> are explicit \<^verbatim>\<open>res.status(..).json(..)\<close> returns,
  each with its status and message. The last three are exceptions: \<open>CastError\<close> is
  thrown where a string that is no object id is cast to one, \<open>SchemaValidation\<close> by
  \<^verbatim>\<open>Message.create\<close> for a document that fails the schema, \<open>QueryRejected\<close> by the store
  for a negative skip. They reach the error middleware of the server, which answers
  every error with status 500; its message differs between the two server files.
\<close>

datatype error =
    ReceiverRequired
  | ReceiverNotFound
  | SelfMessage
  | ContentRequired
  | InvalidFileType
  | FileTooLarge
  | UserNotFound
  | MessageNotFound
  | CastError
  | SchemaValidation
  | QueryRejected

fun http_status :: "error \<Rightarrow> nat" where
  "http_status ReceiverRequired = 400"
| "http_status ReceiverNotFound = 404"
| "http_status SelfMessage = 400"
| "http_status ContentRequired = 400"
| "http_status InvalidFileType = 400"
| "http_status FileTooLarge = 400"
| "http_status UserNotFound = 404"
| "http_status MessageNotFound = 404"
| "http_status CastError = 500"
| "http_status SchemaValidation = 500"
| "http_status QueryRejected = 500"

fun error_message :: "error \<Rightarrow> string option" where
  "error_message ReceiverRequired = Some ''Receiver ID is required''"
| "error_message ReceiverNotFound = Some ''Receiver not found''"
| "error_message SelfMessage = Some ''Cannot send message to yourself''"
| "error_message ContentRequired = Some ''Message content is required''"
| "error_message InvalidFileType =
     Some ''Invalid file type. Only images and PDFs are allowed''"
| "error_message FileTooLarge = Some ''File size too large. Maximum size is 5MB per file''"
| "error_message UserNotFound = Some ''User not found''"
| "error_message MessageNotFound =
     Some ''Message not found or you are not authorized to delete this message''"
| "error_message CastError = None"
| "error_message SchemaValidation = None"
| "error_message QueryRejected = None"

text \<open>
  The failure taxonomy of the specification, section 7, read off the answer the client
  gets: a 400 for malformed or out-of-range input is a \<open>ValidationError\<close>, a 404 for an
  absent user or message is \<open>NotFound\<close> (a message of another sender is reported the same
  way), the 400 for messaging oneself is an \<open>InvalidOperation\<close>, and the 500 of an
  exception is none of these, a \<open>ServerError\<close>.
\<close>

datatype error_class = ValidationError | NotFound | InvalidOperation | ServerError

fun class_of :: "error \<Rightarrow> error_class" where
  "class_of ReceiverRequired = ValidationError"
| "class_of ReceiverNotFound = NotFound"
| "class_of SelfMessage = InvalidOperation"
| "class_of ContentRequired = ValidationError"
| "class_of InvalidFileType = ValidationError"
| "class_of FileTooLarge = ValidationError"
| "class_of UserNotFound = NotFound"
| "class_of MessageNotFound = NotFound"
| "class_of CastError = ServerError"
| "class_of SchemaValidation = ServerError"
| "class_of QueryRejected = ServerError"

section \<open>Strings\<close>

text \<open>
  \<^verbatim>\<open>String.prototype.trim\<close> strips white space and line terminators from both ends; among
  the code units below 256 these are TAB, LF, VT, FF, CR, SPACE and NBSP.
\<close>

definition is_space :: "char \<Rightarrow> bool" where
  "is_space c = (of_char c \<in> {9, 10, 11, 12, 13, 32, 160 :: nat})"

definition trim :: "string \<Rightarrow> string" where
  "trim s = rev (dropWhile is_space (rev (dropWhile is_space s)))"

section \<open>The message model\<close>

text \<open>
  \<^verbatim>\<open>Message.create\<close> under the schema. \<^verbatim>\<open>sender\<close> and \<^verbatim>\<open>receiver\<close> are cast to object
  ids; \<^verbatim>\<open>content\<close> is trimmed by its setter, required and at most 1000 long; an absent
  \<^verbatim>\<open>messageType\<close> takes the default \<^verbatim>\<open>text\<close>, a \<^verbatim>\<open>null\<close> one is stored as it is, a string
  must be one of the enum; \<^verbatim>\<open>isRead\<close> defaults to false, \<^verbatim>\<open>readAt\<close> is unset, \<^verbatim>\<open>createdAt\<close>
  is the clock. A document that fails validation is not saved.
\<close>

definition messageType_enum :: "string list" where
  "messageType_enum = [''text'', ''image'', ''file'']"

definition content_maxlength :: nat where
  "content_maxlength = 1000"

fun valid_type :: "string field \<Rightarrow> bool" where
  "valid_type Absent = True"
| "valid_type Null = True"
| "valid_type (Given t) = (t \<in> set messageType_enum)"

fun stored_type :: "string field \<Rightarrow> string option" where
  "stored_type Absent = Some ''text''"
| "stored_type Null = None"
| "stored_type (Given t) = Some t"

definition create :: "env \<Rightarrow> string \<Rightarrow> string \<Rightarrow> string \<Rightarrow> string field \<Rightarrow> attachment list
    \<Rightarrow> state \<Rightarrow> error + (message \<times> state)" where
  "create e s r c mt atts st =
     (case (cast_id s, cast_id r) of
        (Some sid, Some rid) \<Rightarrow>
          (let c' = trim c in
           if c' = [] \<or> content_maxlength < length c' \<or> \<not> valid_type mt
           then Inl SchemaValidation
           else
             let m = \<lparr> m_id = new_id e, sender = sid, receiver = rid, content = c',
                       messageType = stored_type mt, attachments = atts, isRead = False,
                       readAt = None, createdAt = now e \<rparr>
             in Inr (m, st \<lparr> messages := messages st @ [m] \<rparr>))
      | _ \<Rightarrow> Inl SchemaValidation)"

text \<open>\<^verbatim>\<open>io.to(room).emit(name, payload)\<close>, guarded by \<^verbatim>\<open>if (io)\<close> at every call site.\<close>

definition emit :: "string \<Rightarrow> string \<Rightarrow> payload \<Rightarrow> state \<Rightarrow> state" where
  "emit rm nm p st =
     (if socketio st
      then st \<lparr> emitted := emitted st @ [\<lparr> room = rm, event_name = nm, event_payload = p \<rparr>] \<rparr>
      else st)"

section \<open>sendMessage\<close>

text \<open>
  The request as the handler reads it: the three body fields, and \<^verbatim>\<open>req.files\<close>, absent
  or mapping form-field names to uploads.
\<close>

record send_request =
  body_receiver :: "string field"
  body_content :: "string field"
  body_messageType :: "string field"
  files :: "(string \<times> upload) list option"

definition allowedTypes :: "string list" where
  "allowedTypes = [''image/jpeg'', ''image/jpg'', ''image/png'', ''image/gif'', ''image/webp'',
     ''application/pdf'']"

definition max_file_size :: nat where
  "max_file_size = 5 * 1024 * 1024"

text \<open>\<^verbatim>\<open>req.files && Object.keys(req.files).length > 0\<close>.\<close>

definition files_present :: "send_request \<Rightarrow> bool" where
  "files_present rq = (case files rq of None \<Rightarrow> False | Some fs \<Rightarrow> fs \<noteq> [])"

text \<open>
  \<^verbatim>\<open>req.files.attachments\<close>, made an array: no files at all, no such field, one file, or
  several.
\<close>

definition uploadedFiles :: "send_request \<Rightarrow> upload_file list" where
  "uploadedFiles rq =
     (case files rq of
        None \<Rightarrow> []
      | Some fs \<Rightarrow>
          (case map_of fs ''attachments'' of
             None \<Rightarrow> []
           | Some (Single f) \<Rightarrow> [f]
           | Some (Many l) \<Rightarrow> l))"

text \<open>
  The loop over the uploaded files: each file is checked for its type, then for its size,
  then moved into the uploads directory and pushed onto \<^verbatim>\<open>attachments\<close>. The first file that
  fails a check ends the request; the files moved before it stay where they are.
\<close>

fun stage :: "env \<Rightarrow> upload_file list \<Rightarrow> attachment list \<Rightarrow> state
    \<Rightarrow> (error + attachment list) \<times> state" where
  "stage e [] acc st = (Inr acc, st)"
| "stage e (f # fs) acc st =
     (if file_mimetype f \<notin> set allowedTypes then (Inl InvalidFileType, st)
      else if max_file_size < file_size f then (Inl FileTooLarge, st)
      else
        let fileName = gen_file_name e (length acc) f
        in stage e fs
             (acc @ [\<lparr> url = ''/uploads/'' @ fileName, filename = fileName,
                       originalName = file_name f, size_a = file_size f,
                       mimetype = file_mimetype f \<rparr>])
             (st \<lparr> uploads := uploads st @ [fileName] \<rparr>))"

text \<open>
  The message type the handler goes on with: the destructuring default \<^verbatim>\<open>'text'\<close>
  replaces an absent field only, and when \<^verbatim>\<open>req.files\<close> has a field the
  \<^verbatim>\<open>messageType || req.body.messageType || 'text'\<close> fallback replaces a falsy one. The two
  sibling assignments to \<^verbatim>\<open>receiver\<close> and \<^verbatim>\<open>content\<close> re-read the same body fields and
  change nothing.
\<close>

definition requested_type :: "send_request \<Rightarrow> string field" where
  "requested_type rq =
     (let messageType0 = (case body_messageType rq of Absent \<Rightarrow> Given ''text'' | f \<Rightarrow> f)
      in if files_present rq \<and> falsy messageType0 then Given ''text'' else messageType0)"

definition notify_sent :: "env \<Rightarrow> string \<Rightarrow> message \<Rightarrow> state \<Rightarrow> state" where
  "notify_sent e r m st =
     emit (req_user_id e) ''conversation_updated'' (ConversationUpdated r m)
       (emit r ''conversation_updated'' (ConversationUpdated (req_user_id e) m)
         (emit (req_user_id e) ''message_sent'' (MessageEvent m)
           (emit r ''receive_message'' (MessageEvent m) st)))"

text \<open>
  The handler. The self-send guard compares the receiver as the body spells it with
  \<^verbatim>\<open>req.user.id\<close> by \<^verbatim>\<open>===\<close>; the lookup before it and \<^verbatim>\<open>Message.create\<close> after it cast the
  same string to an object id.
\<close>

definition sendMessage :: "env \<Rightarrow> send_request \<Rightarrow> state \<Rightarrow> (error + message) \<times> state" where
  "sendMessage e rq st =
     (case body_receiver rq of
        Absent \<Rightarrow> (Inl ReceiverRequired, st)
      | Null \<Rightarrow> (Inl ReceiverRequired, st)
      | Given r \<Rightarrow>
          if r = [] then (Inl ReceiverRequired, st)
          else
            (case cast_id r of
               None \<Rightarrow> (Inl CastError, st)
             | Some rid \<Rightarrow>
                 (case users st rid of
                    None \<Rightarrow> (Inl ReceiverNotFound, st)
                  | Some receiverUser \<Rightarrow>
                      if r = req_user_id e then (Inl SelfMessage, st)
                      else
                        (case body_content rq of
                           Absent \<Rightarrow> (Inl ContentRequired, st)
                         | Null \<Rightarrow> (Inl ContentRequired, st)
                         | Given c \<Rightarrow>
                             if c = [] \<or> trim c = [] then (Inl ContentRequired, st)
                             else
                               (case stage e (uploadedFiles rq) [] st of
                                  (Inl err, st1) \<Rightarrow> (Inl err, st1)
                                | (Inr atts, st1) \<Rightarrow>
                                    (case create e (req_user_id e) r (trim c)
                                            (if atts \<noteq> [] then Given ''file''
                                             else requested_type rq)
                                            atts st1 of
                                       Inl err \<Rightarrow> (Inl err, st1)
                                     | Inr (m, st2) \<Rightarrow>
                                         (Inr m, notify_sent e r m st2)))))))"

section \<open>Queries on the message collection\<close>

text \<open>
  A Mongoose query is built by chained calls and run afterwards: the order of the calls
  does not matter, the store filters, then sorts, then skips, then limits. The store refuses
  a negative skip; a limit of zero means no limit and a negative one is taken by its
  absolute value.
\<close>

datatype sort_order = CreatedAtAsc | CreatedAtDesc

record query =
  q_filter :: "message \<Rightarrow> bool"
  q_skip :: int
  q_limit :: "int option"
  q_sort :: "sort_order option"

definition find_q :: "(message \<Rightarrow> bool) \<Rightarrow> query" where
  "find_q p = \<lparr> q_filter = p, q_skip = 0, q_limit = None, q_sort = None \<rparr>"

definition skip_q :: "int \<Rightarrow> query \<Rightarrow> query" where
  "skip_q n q = q \<lparr> q_skip := n \<rparr>"

definition limit_q :: "int \<Rightarrow> query \<Rightarrow> query" where
  "limit_q n q = q \<lparr> q_limit := Some n \<rparr>"

definition sort_q :: "sort_order \<Rightarrow> query \<Rightarrow> query" where
  "sort_q so q = q \<lparr> q_sort := Some so \<rparr>"

text \<open>Sorting on a key, descending; documents with equal keys keep their order.\<close>

definition sort_desc :: "('a \<Rightarrow> int) \<Rightarrow> 'a list \<Rightarrow> 'a list" where
  "sort_desc f xs = sort_key (\<lambda>x. - f x) xs"

definition exec_q :: "query \<Rightarrow> message list \<Rightarrow> error + message list" where
  "exec_q q docs =
     (let matched = filter (q_filter q) docs;
          ordered = (case q_sort q of
                       None \<Rightarrow> matched
                     | Some CreatedAtAsc \<Rightarrow> sort_key createdAt matched
                     | Some CreatedAtDesc \<Rightarrow> sort_desc createdAt matched);
          skipped = drop (nat (q_skip q)) ordered
      in if q_skip q < 0 then Inl QueryRejected
         else Inr (case q_limit q of
                     None \<Rightarrow> skipped
                   | Some l \<Rightarrow> if l = 0 then skipped else take (nat \<bar>l\<bar>) skipped))"

definition countDocuments :: "(message \<Rightarrow> bool) \<Rightarrow> message list \<Rightarrow> nat" where
  "countDocuments p docs = length (filter p docs)"

definition updateMany :: "(message \<Rightarrow> bool) \<Rightarrow> (message \<Rightarrow> message) \<Rightarrow> message list
    \<Rightarrow> message list" where
  "updateMany p upd docs = map (\<lambda>m. if p m then upd m else m) docs"

fun delete_first :: "('a \<Rightarrow> bool) \<Rightarrow> 'a list \<Rightarrow> 'a list" where
  "delete_first p [] = []"
| "delete_first p (x # xs) = (if p x then xs else x # delete_first p xs)"

section \<open>getConversation\<close>

text \<open>The route parameter, a string, and the two query parameters as \<^verbatim>\<open>parseInt\<close> reads
  them (\<open>None\<close> for \<^verbatim>\<open>NaN\<close>).\<close>

record conversation_request =
  param_userId :: string
  query_page :: "int option"
  query_limit :: "int option"

text \<open>\<^verbatim>\<open>parseInt(s) || d\<close>: what was parsed, or \<open>d\<close> when that is falsy.\<close>

definition parsed_or :: "int option \<Rightarrow> int \<Rightarrow> int" where
  "parsed_or p d = (case p of None \<Rightarrow> d | Some n \<Rightarrow> if n = 0 then d else n)"

definition page_of :: "conversation_request \<Rightarrow> int" where
  "page_of rq = parsed_or (query_page rq) 1"

definition limit_of :: "conversation_request \<Rightarrow> int" where
  "limit_of rq = parsed_or (query_limit rq) 50"

definition skip_of :: "conversation_request \<Rightarrow> int" where
  "skip_of rq = (page_of rq - 1) * limit_of rq"

record pagination =
  pg_page :: int
  pg_limit :: int
  pg_total :: nat
  pg_pages :: int

record conversation_view =
  cv_messages :: "message list"
  cv_otherUser :: user
  cv_pagination :: pagination

text \<open>The \<^verbatim>\<open>$or\<close> filter of the pair, and the filter of the read sweep.\<close>

definition between :: "object_id \<Rightarrow> object_id \<Rightarrow> message \<Rightarrow> bool" where
  "between a b m = ((sender m = a \<and> receiver m = b) \<or> (sender m = b \<and> receiver m = a))"

definition unread_from :: "object_id \<Rightarrow> object_id \<Rightarrow> message \<Rightarrow> bool" where
  "unread_from other self m = (sender m = other \<and> receiver m = self \<and> isRead m = False)"

definition mark_read :: "time \<Rightarrow> message \<Rightarrow> message" where
  "mark_read t m = m \<lparr> isRead := True, readAt := Some t \<rparr>"

text \<open>
  The handler. The peer is looked up first, which casts the route parameter; the page is
  queried next, and only then are the unread messages swept, so a call whose query the
  store refuses marks nothing.
\<close>

definition getConversation :: "env \<Rightarrow> conversation_request \<Rightarrow> state
    \<Rightarrow> (error + conversation_view) \<times> state" where
  "getConversation e rq st =
     (let otherUserId = param_userId rq;
          page = page_of rq;
          limit = limit_of rq;
          skip = skip_of rq
      in case cast_id otherUserId of
           None \<Rightarrow> (Inl CastError, st)
         | Some other \<Rightarrow>
      (case users st other of
           None \<Rightarrow> (Inl UserNotFound, st)
         | Some otherUser \<Rightarrow>
             (case exec_q (sort_q CreatedAtDesc (limit_q limit (skip_q skip
                       (find_q (between (req_user e) other))))) (messages st) of
                Inl err \<Rightarrow> (Inl err, st)
              | Inr msgs \<Rightarrow>
                  let unreadMessages =
                        filter (unread_from other (req_user e)) (messages st);
                      st1 = (if unreadMessages \<noteq> []
                             then emit otherUserId ''messages_read''
                                    (MessagesRead (req_user_id e) (map m_id unreadMessages))
                                    (st \<lparr> messages :=
                                        updateMany (unread_from other (req_user e))
                                          (mark_read (now e)) (messages st) \<rparr>)
                             else st);
                      total = countDocuments (between (req_user e) other) (messages st1)
                  in (Inr \<lparr> cv_messages = rev msgs, cv_otherUser = otherUser,
                            cv_pagination = \<lparr> pg_page = page, pg_limit = limit,
                              pg_total = total, pg_pages = - ((- int total) div limit) \<rparr> \<rparr>,
                      st1))))"

section \<open>getUnreadCount\<close>

definition getUnreadCount :: "env \<Rightarrow> state \<Rightarrow> nat" where
  "getUnreadCount e st =
     countDocuments (\<lambda>m. receiver m = req_user e \<and> isRead m = False) (messages st)"

section \<open>getConversations\<close>

text \<open>
  A document of the aggregation: the \<^verbatim>\<open>$group\<close> stage makes it without a user, the
  \<^verbatim>\<open>$lookup\<close> and \<^verbatim>\<open>$unwind\<close> stages attach the peer's user document.
\<close>

record conversation =
  g_id :: object_id
  lastMessage :: message
  unreadCount :: nat
  totalMessages :: nat
  c_user :: "user option"

text \<open>The group key: the receiver when self is the sender, the sender otherwise.\<close>

definition peer_of :: "object_id \<Rightarrow> message \<Rightarrow> object_id" where
  "peer_of self m = (if sender m = self then receiver m else sender m)"

definition unread_inc :: "object_id \<Rightarrow> message \<Rightarrow> nat" where
  "unread_inc self m = (if receiver m = self \<and> isRead m = False then 1 else 0)"

text \<open>
  The accumulators of \<^verbatim>\<open>$group\<close>, fed one document at a time: \<^verbatim>\<open>$first\<close> keeps the document
  that opened the group, the two \<^verbatim>\<open>$sum\<close>s add up.
\<close>

fun group_add :: "object_id \<Rightarrow> message \<Rightarrow> conversation list \<Rightarrow> conversation list" where
  "group_add self m [] =
     [\<lparr> g_id = peer_of self m, lastMessage = m, unreadCount = unread_inc self m,
        totalMessages = 1, c_user = None \<rparr>]"
| "group_add self m (g # gs) =
     (if g_id g = peer_of self m
      then g \<lparr> unreadCount := unreadCount g + unread_inc self m,
               totalMessages := totalMessages g + 1 \<rparr> # gs
      else g # group_add self m gs)"

definition group_stage :: "object_id \<Rightarrow> message list \<Rightarrow> conversation list" where
  "group_stage self docs = foldl (\<lambda>gs m. group_add self m gs) [] docs"

text \<open>\<^verbatim>\<open>$lookup\<close> by \<^verbatim>\<open>_id\<close> finds at most one user; \<^verbatim>\<open>$unwind\<close> drops a document whose
  lookup found none.\<close>

definition lookup_unwind :: "(object_id \<rightharpoonup> user) \<Rightarrow> conversation list \<Rightarrow> conversation list"
  where
  "lookup_unwind us gs =
     concat (map (\<lambda>g. case us (g_id g) of None \<Rightarrow> [] | Some u \<Rightarrow> [g \<lparr> c_user := Some u \<rparr>]) gs)"

text \<open>The pipeline; \<^verbatim>\<open>new ObjectId(req.user.id)\<close> is \<^verbatim>\<open>req.user._id\<close> again.\<close>

definition getConversations :: "env \<Rightarrow> state \<Rightarrow> conversation list" where
  "getConversations e st =
     (let self = req_user e;
          matched = filter (\<lambda>m. sender m = self \<or> receiver m = self) (messages st);
          sorted1 = sort_desc createdAt matched;
          groups = group_stage self sorted1;
          joined = lookup_unwind (users st) groups
      in sort_desc (\<lambda>c. createdAt (lastMessage c)) joined)"

section \<open>deleteMessage\<close>

definition findByIdAndDelete :: "object_id \<Rightarrow> state \<Rightarrow> message option \<times> state" where
  "findByIdAndDelete i st =
     (find (\<lambda>m. m_id m = i) (messages st),
      st \<lparr> messages := delete_first (\<lambda>m. m_id m = i) (messages st) \<rparr>)"

text \<open>
  The handler takes the id from the route as a string; \<^verbatim>\<open>Message.findOne\<close> casts it and
  throws on a string that is no object id.
\<close>

definition deleteMessage :: "env \<Rightarrow> string \<Rightarrow> state \<Rightarrow> (error + message option) \<times> state" where
  "deleteMessage e param_id st =
     (case cast_id param_id of
        None \<Rightarrow> (Inl CastError, st)
      | Some i \<Rightarrow>
          (case find (\<lambda>m. m_id m = i \<and> sender m = req_user e) (messages st) of
             None \<Rightarrow> (Inl MessageNotFound, st)
           | Some message \<Rightarrow>
               (case findByIdAndDelete i st of
                  (deletedMessage, st1) \<Rightarrow>
                    (Inr deletedMessage,
                     emit (toHexString (receiver message)) ''message_deleted''
                       (MessageDeleted param_id (req_user_id e)) st1))))"

section \<open>sendTypingIndicator\<close>

record typing_request =
  body_receiverId :: "string field"
  body_isTyping :: bool

definition sendTypingIndicator :: "env \<Rightarrow> typing_request \<Rightarrow> state \<Rightarrow> (error + string) \<times> state"
  where
  "sendTypingIndicator e rq st =
     (case body_receiverId rq of
        Absent \<Rightarrow> (Inl ReceiverRequired, st)
      | Null \<Rightarrow> (Inl ReceiverRequired, st)
      | Given receiverId \<Rightarrow>
          if receiverId = [] then (Inl ReceiverRequired, st)
          else
            (Inr (if body_isTyping rq then ''Typing indicator sent''
                  else ''Typing indicator stopped''),
             emit receiverId ''typing_indicator''
               (TypingIndicator (req_user_id e) (body_isTyping rq) (req_user_name e)) st))"

text \<open>A sequence of typing-indicator calls, each by its own caller.\<close>

fun typing_calls :: "(env \<times> typing_request) list \<Rightarrow> state \<Rightarrow> state" where
  "typing_calls [] st = st"
| "typing_calls ((e, rq) # cs) st = typing_calls cs (snd (sendTypingIndicator e rq st))"

section \<open>Store invariant\<close>

text \<open>Object ids are unique in the collection.\<close>

definition wf_store :: "state \<Rightarrow> bool" where
  "wf_store st = distinct (map m_id (messages st))"

section \<open>Predicates of the properties\<close>

text \<open>A file that one of the two checks of the staging loop turns down.\<close>

definition rejected_file :: "upload_file \<Rightarrow> bool" where
  "rejected_file f = (file_mimetype f \<notin> set allowedTypes \<or> max_file_size < file_size f)"

text \<open>Content that is missing, blank once trimmed, or longer than the bound once trimmed.\<close>

fun blank_content :: "string field \<Rightarrow> bool" where
  "blank_content Absent = True"
| "blank_content Null = True"
| "blank_content (Given s) = (trim s = [])"

fun long_content :: "string field \<Rightarrow> bool" where
  "long_content (Given s) = (content_maxlength < length (trim s))"
| "long_content _ = False"

text \<open>
  What stops a send before its content is looked at, if anything does: the receiver guard,
  the cast of the receiver, the lookup, the self-send guard, in this order.
\<close>

definition receiver_failure :: "env \<Rightarrow> send_request \<Rightarrow> state \<Rightarrow> error option" where
  "receiver_failure e rq st =
     (case body_receiver rq of
        Given r \<Rightarrow>
          if r = [] then Some ReceiverRequired
          else (case cast_id r of
                  None \<Rightarrow> Some CastError
                | Some rid \<Rightarrow>
                    if users st rid = None then Some ReceiverNotFound
                    else if r = toHexString (req_user e) then Some SelfMessage
                    else None)
      | _ \<Rightarrow> Some ReceiverRequired)"

text \<open>
  The message type that a successful send stores, in terms of the request alone: \<^verbatim>\<open>file\<close>
  when files were uploaded as attachments; otherwise \<^verbatim>\<open>text\<close> for an absent type, and for
  a \<^verbatim>\<open>null\<close> or empty one when the request carries files under another field; otherwise
  the type as supplied.
\<close>

definition expected_type :: "send_request \<Rightarrow> string option" where
  "expected_type rq =
     (if uploadedFiles rq \<noteq> [] then Some ''file''
      else case body_messageType rq of
             Absent \<Rightarrow> Some ''text''
           | Null \<Rightarrow> if files_present rq then Some ''text'' else None
           | Given t \<Rightarrow> if t = [] \<and> files_present rq then Some ''text'' else Some t)"

text \<open>A request that passes every guard of the handler and the schema.\<close>

definition acceptable :: "env \<Rightarrow> send_request \<Rightarrow> state \<Rightarrow> bool" where
  "acceptable e rq st =
     (receiver_failure e rq st = None
      \<and> \<not> blank_content (body_content rq) \<and> \<not> long_content (body_content rq)
      \<and> \<not> list_ex rejected_file (uploadedFiles rq)
      \<and> (case expected_type rq of None \<Rightarrow> True | Some t \<Rightarrow> t \<in> set messageType_enum))"


section \<open>Example data\<close>

definition alice :: object_id where "alice = ObjectId ''65a1b2c3d4e5f60718293a4b''"
definition bob :: object_id where "bob = ObjectId ''65a1b2c3d4e5f60718293a4c''"
definition carol :: object_id where "carol = ObjectId ''65a1b2c3d4e5f60718293a4d''"

text \<open>Alice and Bob have accounts; Carol's has been deleted.\<close>

definition directory :: "object_id \<rightharpoonup> user" where
  "directory =
     [alice \<mapsto> \<lparr> name = ''Alice'', email = ''alice@example.com'', profilePicture = [] \<rparr>,
      bob \<mapsto> \<lparr> name = ''Bob'', email = ''bob@example.com'', profilePicture = [] \<rparr>]"

definition msg_ids :: "object_id list" where
  "msg_ids =
     [ObjectId ''65b000000000000000000000'', ObjectId ''65b000000000000000000001'',
      ObjectId ''65b000000000000000000002'', ObjectId ''65b000000000000000000003'',
      ObjectId ''65b000000000000000000004'']"

definition env_of :: "object_id \<Rightarrow> string \<Rightarrow> time \<Rightarrow> env" where
  "env_of u n t = \<lparr> req_user = u, req_user_name = n, now = t,
     gen_file_name = (\<lambda>k f. ''message-'' @ file_name f), new_id = msg_ids ! 4 \<rparr>"

definition empty_store :: state where
  "empty_store = \<lparr> users = directory, messages = [], uploads = [],
     socketio = True, emitted = [] \<rparr>"

definition small_png :: upload_file where
  "small_png = \<lparr> file_name = ''cat.png'', file_size = 2048, file_mimetype = ''image/png'' \<rparr>"

definition notes_txt :: upload_file where
  "notes_txt = \<lparr> file_name = ''notes.txt'', file_size = 512, file_mimetype = ''text/plain'' \<rparr>"

definition text_request :: "string \<Rightarrow> string \<Rightarrow> string field \<Rightarrow> send_request" where
  "text_request r c mt = \<lparr> body_receiver = Given r, body_content = Given c,
     body_messageType = mt, files = None \<rparr>"

definition form_request :: "string \<Rightarrow> string \<Rightarrow> string field \<Rightarrow> string \<Rightarrow> upload_file list
    \<Rightarrow> send_request" where
  "form_request r c mt fld fs = \<lparr> body_receiver = Given r, body_content = Given c,
     body_messageType = mt, files = Some [(fld, Many fs)] \<rparr>"

definition view_request :: "string \<Rightarrow> int option \<Rightarrow> int option \<Rightarrow> conversation_request" where
  "view_request p pg lm = \<lparr> param_userId = p, query_page = pg, query_limit = lm \<rparr>"

definition padded_text :: string where
  "padded_text = CHR ''a'' # replicate 1000 CHR '' ''"

definition long_text :: string where
  "long_text = replicate 1001 CHR ''a''"

definition msg :: "nat \<Rightarrow> object_id \<Rightarrow> object_id \<Rightarrow> string \<Rightarrow> time \<Rightarrow> bool \<Rightarrow> message" where
  "msg i s r c t rd = \<lparr> m_id = msg_ids ! i, sender = s, receiver = r, content = c,
     messageType = Some ''text'', attachments = [], isRead = rd, readAt = None,
     createdAt = t \<rparr>"

text \<open>Alice and Bob have exchanged three messages; Carol wrote to Alice before her account
  was deleted.\<close>

definition chat_store :: state where
  "chat_store = empty_store \<lparr> messages :=
       [msg 0 alice bob ''hi'' 10 True, msg 1 bob alice ''hello'' 20 False,
        msg 2 carol alice ''hey'' 30 False, msg 3 bob alice ''there?'' 40 False] \<rparr>"

section \<open>Object ids\<close>

lemma lower_hex_lower: "is_hex c \<Longrightarrow> is_lower_hex (lower_hex c)"
  by (auto simp: is_hex_def is_lower_hex_def lower_hex_def)

lemma lower_hex_keeps: "is_lower_hex c \<Longrightarrow> lower_hex c = c"
  by (auto simp: is_lower_hex_def lower_hex_def)

lemma is_lower_hex_hex: "is_lower_hex c \<Longrightarrow> is_hex c"
  by (auto simp: is_hex_def is_lower_hex_def)

lemma canonical_lower:
  "length s = 24 \<Longrightarrow> list_all is_hex s \<Longrightarrow> canonical (map lower_hex s)"
  by (simp add: canonical_def list_all_iff lower_hex_lower)

lemma canonical_toHexString: "canonical (toHexString i)"
  using toHexString[of i] by simp

lemma toHexString_not_Nil [simp]: "toHexString i \<noteq> []"
  using canonical_toHexString[of i] by (auto simp: canonical_def)

lemma Nil_not_toHexString [simp]: "[] \<noteq> toHexString i"
  using toHexString_not_Nil[of i] by metis

lemma cast_toHexString [simp]: "cast_id (toHexString i) = Some i"
proof -
  have c: "canonical (toHexString i)" by (rule canonical_toHexString)
  then have "list_all is_hex (toHexString i)"
    by (simp add: canonical_def list_all_iff is_lower_hex_hex)
  moreover have "map lower_hex (toHexString i) = toHexString i"
    using c by (intro map_idI) (simp add: canonical_def list_all_iff lower_hex_keeps)
  ultimately show ?thesis
    using c by (simp add: cast_id_def canonical_def toHexString_inverse)
qed

lemma cast_id_text: "cast_id s = Some i \<Longrightarrow> toHexString i = map lower_hex s"
  by (auto simp: cast_id_def ObjectId_inverse canonical_lower split: if_splits)

lemma cast_req_user [simp]: "cast_id (req_user_id e) = Some (req_user e)"
  by (simp add: req_user_id_def)

lemma req_user_id_not_Nil [simp]: "req_user_id e \<noteq> []"
  by (simp add: req_user_id_def)

section \<open>Failing sends leave the collection alone\<close>

lemma trim_Nil [simp]: "trim [] = []"
  by (simp add: trim_def)

lemma emit_messages [simp]: "messages (emit rm nm p st) = messages st"
  and emit_users [simp]: "users (emit rm nm p st) = users st"
  by (simp_all add: emit_def)

lemma stage_messages [simp]: "messages (snd (stage e fs acc st)) = messages st"
  by (induction e fs acc st rule: stage.induct) (simp_all add: Let_def)

lemma stage_users [simp]: "users (snd (stage e fs acc st)) = users st"
  by (induction e fs acc st rule: stage.induct) (simp_all add: Let_def)

lemma stage_rejects:
  "list_ex rejected_file fs \<Longrightarrow>
     fst (stage e fs acc st) = Inl InvalidFileType \<or> fst (stage e fs acc st) = Inl FileTooLarge"
  by (induction e fs acc st rule: stage.induct) (auto simp: Let_def rejected_file_def)

lemma stage_accepts:
  "\<not> list_ex rejected_file fs \<Longrightarrow>
     \<exists>atts. fst (stage e fs acc st) = Inr (acc @ atts) \<and> length atts = length fs"
proof (induction e fs acc st rule: stage.induct)
  case (1 e acc st)
  then show ?case by simp
next
  case (2 e f fs acc st)
  then show ?case
    apply (simp add: Let_def rejected_file_def)
    by (metis length_Cons)
qed

lemma stage_error:
  "fst (stage e fs acc st) = Inl err \<Longrightarrow>
     list_ex rejected_file fs \<and> (err = InvalidFileType \<or> err = FileTooLarge)"
  by (induction e fs acc st rule: stage.induct)
    (auto simp: Let_def rejected_file_def split: if_splits)

lemma create_error: "create e s r c mt atts st = Inl err \<Longrightarrow> err = SchemaValidation"
  by (auto simp: create_def Let_def split: if_splits option.splits)

text \<open>The handler once the receiver guards are behind it.\<close>

lemma sendMessage_receiver_failure:
  "receiver_failure e rq st = Some err \<Longrightarrow> sendMessage e rq st = (Inl err, st)"
  by (auto simp: receiver_failure_def sendMessage_def req_user_id_def
      split: field.splits option.splits if_splits)

lemma sendMessage_past_receiver:
  assumes "receiver_failure e rq st = None"
  shows "\<exists>r rid. body_receiver rq = Given r \<and> cast_id r = Some rid \<and> users st rid \<noteq> None
     \<and> sendMessage e rq st =
         (if blank_content (body_content rq) then (Inl ContentRequired, st)
          else case stage e (uploadedFiles rq) [] st of
                 (Inl err, st1) \<Rightarrow> (Inl err, st1)
               | (Inr atts, st1) \<Rightarrow>
                   (case create e (req_user_id e) r
                           (trim (case body_content rq of Given c \<Rightarrow> c | _ \<Rightarrow> []))
                           (if atts \<noteq> [] then Given ''file'' else requested_type rq)
                           atts st1 of
                      Inl err \<Rightarrow> (Inl err, st1)
                    | Inr (m, st2) \<Rightarrow> (Inr m, notify_sent e r m st2)))"
  using assms
  by (auto simp: receiver_failure_def sendMessage_def req_user_id_def
      split: field.splits option.splits if_splits)

lemma sendMessage_failure_messages:
  assumes "fst (sendMessage e rq st) = Inl err"
  shows "messages (snd (sendMessage e rq st)) = messages st"
proof (cases "receiver_failure e rq st")
  case (Some err')
  then show ?thesis by (simp add: sendMessage_receiver_failure)
next
  case None
  from sendMessage_past_receiver[OF None] obtain r rid where
    eq: "sendMessage e rq st =
         (if blank_content (body_content rq) then (Inl ContentRequired, st)
          else case stage e (uploadedFiles rq) [] st of
                 (Inl err, st1) \<Rightarrow> (Inl err, st1)
               | (Inr atts, st1) \<Rightarrow>
                   (case create e (req_user_id e) r
                           (trim (case body_content rq of Given c \<Rightarrow> c | _ \<Rightarrow> []))
                           (if atts \<noteq> [] then Given ''file'' else requested_type rq)
                           atts st1 of
                      Inl err \<Rightarrow> (Inl err, st1)
                    | Inr (m, st2) \<Rightarrow> (Inr m, notify_sent e r m st2)))"
    by blast
  have sg: "\<And>x y. stage e (uploadedFiles rq) [] st = (x, y) \<Longrightarrow> messages y = messages st"
    by (metis snd_conv stage_messages)
  from assms show ?thesis
    unfolding eq by (auto simp: sg split: if_splits prod.splits sum.splits)
qed

section \<open>Trimming\<close>

lemma dropWhile_keeps: "xs = [] \<or> \<not> P (hd xs) \<Longrightarrow> dropWhile P xs = xs"
  by (cases xs) auto

lemma last_dropWhile: "dropWhile P xs \<noteq> [] \<Longrightarrow> last (dropWhile P xs) = last xs"
  by (metis last_appendR takeWhile_dropWhile_id)

lemma trim_ends:
  "trim s = [] \<or> (\<not> is_space (hd (trim s)) \<and> \<not> is_space (last (trim s)))"
proof (cases "dropWhile is_space s = []")
  case True
  show ?thesis unfolding trim_def True by simp
next
  case False
  define d where "d = dropWhile is_space s"
  define t where "t = dropWhile is_space (rev d)"
  have d: "d \<noteq> []" "\<not> is_space (hd d)"
    using False hd_dropWhile[of is_space s] by (simp_all add: d_def)
  have "hd d \<in> set (rev d)" using d(1) by simp
  then have t: "t \<noteq> []"
    unfolding t_def using d(2) by (metis dropWhile_eq_Nil_conv)
  then have ht: "\<not> is_space (hd t)"
    unfolding t_def by (rule hd_dropWhile)
  have "last t = last (rev d)"
    using t unfolding t_def by (rule last_dropWhile)
  then have lt: "\<not> is_space (last t)"
    using d by (simp add: last_rev)
  have "trim s = rev t" by (simp add: trim_def t_def d_def)
  then show ?thesis using t ht lt by (simp add: hd_rev last_rev)
qed

lemma trim_trim [simp]: "trim (trim s) = trim s"
proof -
  have a: "dropWhile is_space (trim s) = trim s"
    using trim_ends[of s] by (auto intro: dropWhile_keeps)
  have "rev (trim s) = [] \<or> \<not> is_space (hd (rev (trim s)))"
    using trim_ends[of s] by (auto simp: hd_rev)
  then have b: "dropWhile is_space (rev (trim s)) = rev (trim s)"
    by (rule dropWhile_keeps)
  show ?thesis
    by (simp add: trim_def[of "trim s"] a b)
qed

lemma trim_keeps: "s \<noteq> [] \<Longrightarrow> \<not> is_space (hd s) \<Longrightarrow> \<not> is_space (last s) \<Longrightarrow> trim s = s"
  by (simp add: trim_def dropWhile_keeps hd_rev)

section \<open>What a send answers\<close>

lemma create_cast:
  assumes "cast_id r = Some rid"
  shows "create e (req_user_id e) r c mt atts st =
     (if trim c = [] \<or> content_maxlength < length (trim c) \<or> \<not> valid_type mt
      then Inl SchemaValidation
      else Inr (\<lparr> m_id = new_id e, sender = req_user e, receiver = rid, content = trim c,
                  messageType = stored_type mt, attachments = atts, isRead = False,
                  readAt = None, createdAt = now e \<rparr>,
                st \<lparr> messages := messages st @
                  [\<lparr> m_id = new_id e, sender = req_user e, receiver = rid, content = trim c,
                     messageType = stored_type mt, attachments = atts, isRead = False,
                     readAt = None, createdAt = now e \<rparr>] \<rparr>))"
  by (simp add: create_def assms Let_def)

lemma requested_type_expected:
  assumes "uploadedFiles rq = []"
  shows "stored_type (requested_type rq) = expected_type rq"
    and "valid_type (requested_type rq)
       = (case expected_type rq of None \<Rightarrow> True | Some t \<Rightarrow> t \<in> set messageType_enum)"
  using assms
  by (cases "body_messageType rq"; cases "files_present rq";
      simp add: requested_type_def expected_type_def messageType_enum_def)+

lemma sendMessage_error:
  assumes "fst (sendMessage e rq st) = Inl err"
  shows "case receiver_failure e rq st of
           Some err0 \<Rightarrow> err = err0
         | None \<Rightarrow>
             if blank_content (body_content rq) then err = ContentRequired
             else if list_ex rejected_file (uploadedFiles rq)
               then err = InvalidFileType \<or> err = FileTooLarge
             else err = SchemaValidation"
proof (cases "receiver_failure e rq st")
  case (Some err0)
  then show ?thesis using assms by (simp add: sendMessage_receiver_failure)
next
  case None
  from sendMessage_past_receiver[OF None] obtain r rid where
    eq: "sendMessage e rq st =
         (if blank_content (body_content rq) then (Inl ContentRequired, st)
          else case stage e (uploadedFiles rq) [] st of
                 (Inl err, st1) \<Rightarrow> (Inl err, st1)
               | (Inr atts, st1) \<Rightarrow>
                   (case create e (req_user_id e) r
                           (trim (case body_content rq of Given c \<Rightarrow> c | _ \<Rightarrow> []))
                           (if atts \<noteq> [] then Given ''file'' else requested_type rq)
                           atts st1 of
                      Inl err \<Rightarrow> (Inl err, st1)
                    | Inr (m, st2) \<Rightarrow> (Inr m, notify_sent e r m st2)))"
    by blast
  show ?thesis
  proof (cases "blank_content (body_content rq)")
    case True
    then show ?thesis using assms None by (simp add: eq)
  next
    case False
    obtain x st1 where sg: "stage e (uploadedFiles rq) [] st = (x, st1)"
      by (cases "stage e (uploadedFiles rq) [] st")
    show ?thesis
    proof (cases x)
      case (Inl er)
      with sg have "fst (stage e (uploadedFiles rq) [] st) = Inl er" by simp
      from stage_error[OF this] assms show ?thesis
        using None False sg Inl by (simp add: eq)
    next
      case (Inr atts)
      with sg have "fst (stage e (uploadedFiles rq) [] st) = Inr atts" by simp
      then have nr: "\<not> list_ex rejected_file (uploadedFiles rq)"
        using stage_rejects[of "uploadedFiles rq" e "[]" st] by auto
      from assms have "err = SchemaValidation"
        using False sg Inr
        by (auto simp: eq dest: create_error split: sum.splits prod.splits)
      then show ?thesis using None False nr by simp
    qed
  qed
qed

lemma sendMessage_rejected_file_fails:
  assumes "list_ex rejected_file (uploadedFiles rq)"
  shows "\<exists>err. fst (sendMessage e rq st) = Inl err"
proof (cases "receiver_failure e rq st")
  case (Some err0)
  then show ?thesis by (simp add: sendMessage_receiver_failure)
next
  case None
  from stage_rejects[OF assms, of e "[]" st]
  obtain er where "fst (stage e (uploadedFiles rq) [] st) = Inl er" by blast
  then obtain st1 where "stage e (uploadedFiles rq) [] st = (Inl er, st1)"
    by (cases "stage e (uploadedFiles rq) [] st") auto
  then show ?thesis
    using sendMessage_past_receiver[OF None] by auto
qed

lemma sendMessage_bad_content_fails:
  assumes "blank_content (body_content rq) \<or> long_content (body_content rq)"
  shows "\<exists>err. fst (sendMessage e rq st) = Inl err"
proof (cases "receiver_failure e rq st")
  case (Some err0)
  then show ?thesis by (simp add: sendMessage_receiver_failure)
next
  case None
  from sendMessage_past_receiver[OF None] obtain r rid where c: "cast_id r = Some rid" and
    eq: "sendMessage e rq st =
         (if blank_content (body_content rq) then (Inl ContentRequired, st)
          else case stage e (uploadedFiles rq) [] st of
                 (Inl err, st1) \<Rightarrow> (Inl err, st1)
               | (Inr atts, st1) \<Rightarrow>
                   (case create e (req_user_id e) r
                           (trim (case body_content rq of Given c \<Rightarrow> c | _ \<Rightarrow> []))
                           (if atts \<noteq> [] then Given ''file'' else requested_type rq)
                           atts st1 of
                      Inl err \<Rightarrow> (Inl err, st1)
                    | Inr (m, st2) \<Rightarrow> (Inr m, notify_sent e r m st2)))"
    by blast
  show ?thesis
  proof (cases "blank_content (body_content rq)")
    case True
    then show ?thesis by (simp add: eq)
  next
    case False
    with assms obtain s where s: "body_content rq = Given s"
      "content_maxlength < length (trim s)"
      by (cases "body_content rq") auto
    show ?thesis
      using False s by (simp add: eq create_cast[OF c] split: prod.splits sum.splits)
  qed
qed

section \<open>What a send stores\<close>

lemma sendMessage_run:
  assumes rf: "receiver_failure e rq st = None"
    and nb: "\<not> blank_content (body_content rq)"
    and nr: "\<not> list_ex rejected_file (uploadedFiles rq)"
  shows "\<exists>r rid c atts st1.
      body_receiver rq = Given r \<and> cast_id r = Some rid \<and> body_content rq = Given c
      \<and> stage e (uploadedFiles rq) [] st = (Inr atts, st1)
      \<and> length atts = length (uploadedFiles rq) \<and> messages st1 = messages st
      \<and> sendMessage e rq st =
          (case create e (req_user_id e) r (trim c)
                  (if atts \<noteq> [] then Given ''file'' else requested_type rq) atts st1 of
             Inl err \<Rightarrow> (Inl err, st1)
           | Inr (m, st2) \<Rightarrow> (Inr m, notify_sent e r m st2))"
proof -
  from sendMessage_past_receiver[OF rf] obtain r rid where
    r: "body_receiver rq = Given r" "cast_id r = Some rid" and
    eq: "sendMessage e rq st =
         (if blank_content (body_content rq) then (Inl ContentRequired, st)
          else case stage e (uploadedFiles rq) [] st of
                 (Inl err, st1) \<Rightarrow> (Inl err, st1)
               | (Inr atts, st1) \<Rightarrow>
                   (case create e (req_user_id e) r
                           (trim (case body_content rq of Given c \<Rightarrow> c | _ \<Rightarrow> []))
                           (if atts \<noteq> [] then Given ''file'' else requested_type rq)
                           atts st1 of
                      Inl err \<Rightarrow> (Inl err, st1)
                    | Inr (m, st2) \<Rightarrow> (Inr m, notify_sent e r m st2)))"
    by blast
  from nb obtain c where c: "body_content rq = Given c" by (cases "body_content rq") auto
  from stage_accepts[OF nr, of e "[]" st] obtain atts where
    a: "fst (stage e (uploadedFiles rq) [] st) = Inr atts"
       "length atts = length (uploadedFiles rq)" by auto
  then obtain st1 where sg: "stage e (uploadedFiles rq) [] st = (Inr atts, st1)"
    by (cases "stage e (uploadedFiles rq) [] st") auto
  then have ms: "messages st1 = messages st" by (metis snd_conv stage_messages)
  show ?thesis
    using r c a(2) sg ms nb by (simp add: eq)
qed

lemma expected_type_files:
  "uploadedFiles rq \<noteq> [] \<Longrightarrow> expected_type rq = Some ''file''"
  by (simp add: expected_type_def)


lemma sendMessage_success:
  assumes "fst (sendMessage e rq st) = Inr m"
  shows "acceptable e rq st
     \<and> messages (snd (sendMessage e rq st)) = messages st @ [m]
     \<and> length (attachments m) = length (uploadedFiles rq)
     \<and> messageType m = expected_type rq
     \<and> m_id m = new_id e \<and> sender m = req_user e
     \<and> (case body_receiver rq of Given r \<Rightarrow> cast_id r = Some (receiver m) | _ \<Rightarrow> False)
     \<and> (case body_content rq of Given c \<Rightarrow> content m = trim c | _ \<Rightarrow> False)
     \<and> isRead m = False \<and> readAt m = None \<and> createdAt m = now e"
proof -
  have rf: "receiver_failure e rq st = None"
  proof (cases "receiver_failure e rq st")
    case (Some err0)
    then show ?thesis using assms by (simp add: sendMessage_receiver_failure)
  qed simp
  have ne: "\<And>err. fst (sendMessage e rq st) \<noteq> Inl err" using assms by simp
  have nb: "\<not> blank_content (body_content rq)"
    using sendMessage_past_receiver[OF rf] assms by auto
  have nr: "\<not> list_ex rejected_file (uploadedFiles rq)"
    using sendMessage_rejected_file_fails[of rq e st] ne by blast
  have nl: "\<not> long_content (body_content rq)"
    using sendMessage_bad_content_fails[of rq e st] ne by blast
  from sendMessage_run[OF rf nb nr] obtain r rid c atts st1 where
    r: "body_receiver rq = Given r" "cast_id r = Some rid" and c: "body_content rq = Given c"
    and len: "length atts = length (uploadedFiles rq)" and ms: "messages st1 = messages st"
    and eq: "sendMessage e rq st =
          (case create e (req_user_id e) r (trim c)
                  (if atts \<noteq> [] then Given ''file'' else requested_type rq) atts st1 of
             Inl err \<Rightarrow> (Inl err, st1)
           | Inr (m, st2) \<Rightarrow> (Inr m, notify_sent e r m st2))"
    by blast
  let ?mt = "if atts \<noteq> [] then Given ''file'' else requested_type rq"
  have ok: "\<not> (trim c = [] \<or> content_maxlength < length (trim c) \<or> \<not> valid_type ?mt)"
    using assms by (auto simp: eq create_cast[OF r(2)] split: if_splits)
  have m: "m = \<lparr> m_id = new_id e, sender = req_user e, receiver = rid, content = trim c,
                  messageType = stored_type ?mt, attachments = atts, isRead = False,
                  readAt = None, createdAt = now e \<rparr>"
    and sn: "messages (snd (sendMessage e rq st)) = messages st @ [m]"
    using assms ok by (auto simp: eq create_cast[OF r(2)] notify_sent_def ms)
  have ty: "stored_type ?mt = expected_type rq
      \<and> (case expected_type rq of None \<Rightarrow> True | Some t \<Rightarrow> t \<in> set messageType_enum)"
  proof (cases "atts = []")
    case True
    then have u: "uploadedFiles rq = []" using len by simp
    show ?thesis using ok True requested_type_expected[OF u] by simp
  next
    case False
    then have "uploadedFiles rq \<noteq> []" using len by auto
    then show ?thesis using False by (simp add: expected_type_files messageType_enum_def)
  qed
  have "acceptable e rq st"
    using rf nb nl nr ty by (simp add: acceptable_def)
  then show ?thesis
    using sn ty r c len by (simp add: m)
qed

section \<open>The example accounts\<close>

lemma example_canonical [simp]:
  "canonical ''65a1b2c3d4e5f60718293a4b''" "canonical ''65a1b2c3d4e5f60718293a4c''"
  "canonical ''65a1b2c3d4e5f60718293a4d''"
  "canonical ''65b000000000000000000000''" "canonical ''65b000000000000000000001''"
  "canonical ''65b000000000000000000002''" "canonical ''65b000000000000000000003''"
  "canonical ''65b000000000000000000004''"
  by (simp_all add: canonical_def is_lower_hex_def)

lemma example_hex [simp]:
  "toHexString alice = ''65a1b2c3d4e5f60718293a4b''"
  "toHexString bob = ''65a1b2c3d4e5f60718293a4c''"
  "toHexString carol = ''65a1b2c3d4e5f60718293a4d''"
  by (simp_all add: alice_def bob_def carol_def ObjectId_inverse)

lemma example_cast [simp]:
  "cast_id ''65a1b2c3d4e5f60718293a4b'' = Some alice"
  "cast_id ''65a1b2c3d4e5f60718293a4c'' = Some bob"
  "cast_id ''65a1b2c3d4e5f60718293a4d'' = Some carol"
  "cast_id ''65A1B2C3D4E5F60718293A4B'' = Some alice"
  "cast_id ''7'' = None"
  by (simp_all add: cast_id_def is_hex_def lower_hex_def alice_def bob_def carol_def)

lemma ids_distinct [simp]:
  "alice \<noteq> bob" "bob \<noteq> alice" "alice \<noteq> carol" "carol \<noteq> alice" "bob \<noteq> carol"
  "carol \<noteq> bob"
  by (simp_all add: alice_def bob_def carol_def ObjectId_inject)

lemma directory_simps [simp]:
  "directory alice = Some \<lparr> name = ''Alice'', email = ''alice@example.com'', profilePicture = [] \<rparr>"
  "directory bob = Some \<lparr> name = ''Bob'', email = ''bob@example.com'', profilePicture = [] \<rparr>"
  "directory carol = None"
  by (simp_all add: directory_def)

lemma env_of_simps [simp]:
  "req_user (env_of u n t) = u" "req_user_name (env_of u n t) = n" "now (env_of u n t) = t"
  "new_id (env_of u n t) = msg_ids ! 4"
  "gen_file_name (env_of u n t) k f = ''message-'' @ file_name f"
  "req_user_id (env_of u n t) = toHexString u"
  by (simp_all add: env_of_def req_user_id_def)

lemma empty_store_simps [simp]:
  "users empty_store = directory" "messages empty_store = []"
  "users chat_store = directory"
  by (simp_all add: empty_store_def chat_store_def)

lemma trim_short [simp]: "trim ''see'' = ''see''" "trim ''hi'' = ''hi''" "trim ''   '' = []"
  by (simp_all add: trim_def is_space_def)

section \<open>Properties of sendMessage\<close>

lemmas example_defs = text_request_def form_request_def small_png_def notes_txt_def
  uploadedFiles_def files_present_def

lemma sendMessage_self_exact:
  assumes "body_receiver rq = Given (req_user_id e)" and "users st (req_user e) \<noteq> None"
  shows "sendMessage e rq st = (Inl SelfMessage, st)"
  using assms by (auto simp: sendMessage_def)

text \<open>
  C3, as amended. A send request with an attachment of a type outside the allow-list
  (\<^verbatim>\<open>image/jpeg\<close>, \<^verbatim>\<open>image/jpg\<close>, \<^verbatim>\<open>image/png\<close>, \<^verbatim>\<open>image/gif\<close>, \<^verbatim>\<open>image/webp\<close>,
  \<^verbatim>\<open>application/pdf\<close>) or of more than 5 * 1024 * 1024 bytes always fails and leaves the
  message collection as it was. When the receiver passes its four checks the failure is a
  400, a validation error. The checks run first and answer for themselves: a missing
  receiver with a 400, a receiver that is no object id with the 500 of the cast that
  throws, a receiver that names no user with a 404, and the sender's own id, spelled as
  \<^verbatim>\<open>req.user.id\<close> spells it, with the 400 of a self-send. (The server's upload middleware
  turns a file above the size limit away before the handler runs; the handler's own size
  check is what is stated here.)
\<close>

theorem sendMessage_rejected_attachment:
  assumes "list_ex rejected_file (uploadedFiles rq)"
  shows "\<exists>err. fst (sendMessage e rq st) = Inl err
     \<and> messages (snd (sendMessage e rq st)) = messages st
     \<and> (case receiver_failure e rq st of
           Some err0 \<Rightarrow> err = err0
         | None \<Rightarrow> class_of err = ValidationError \<and> http_status err = 400)"
proof -
  from sendMessage_rejected_file_fails[OF assms]
  obtain err where err: "fst (sendMessage e rq st) = Inl err" by blast
  have "case receiver_failure e rq st of
           Some err0 \<Rightarrow> err = err0
         | None \<Rightarrow> class_of err = ValidationError \<and> http_status err = 400"
    using sendMessage_error[OF err] assms by (auto split: option.splits if_splits)
  then show ?thesis
    using err sendMessage_failure_messages[OF err] by blast
qed

theorem sendMessage_rejected_attachment_witness:
  "list_ex rejected_file
     (uploadedFiles (form_request ''65a1b2c3d4e5f60718293a4c'' ''see'' Absent ''attachments''
        [small_png, notes_txt]))
   \<and> receiver_failure (env_of alice ''Alice'' 1000)
        (form_request ''65a1b2c3d4e5f60718293a4c'' ''see'' Absent ''attachments''
           [small_png, notes_txt]) empty_store = None
   \<and> sendMessage (env_of alice ''Alice'' 1000)
        (form_request ''65a1b2c3d4e5f60718293a4c'' ''see'' Absent ''attachments''
           [small_png, notes_txt]) empty_store
      = (Inl InvalidFileType, empty_store \<lparr> uploads := [''message-cat.png''] \<rparr>)
   \<and> class_of InvalidFileType = ValidationError \<and> http_status InvalidFileType = 400
   \<and> messages (empty_store \<lparr> uploads := [''message-cat.png''] \<rparr>) = messages empty_store"
proof -
  let ?rq = "form_request ''65a1b2c3d4e5f60718293a4c'' ''see'' Absent ''attachments''
           [small_png, notes_txt]"
  have bad: "list_ex rejected_file (uploadedFiles ?rq)"
    by (simp add: rejected_file_def example_defs allowedTypes_def max_file_size_def)
  have rf: "receiver_failure (env_of alice ''Alice'' 1000) ?rq empty_store = None"
    by (simp add: receiver_failure_def form_request_def)
  have ev: "sendMessage (env_of alice ''Alice'' 1000) ?rq empty_store
      = (Inl InvalidFileType, empty_store \<lparr> uploads := [''message-cat.png''] \<rparr>)"
    by (simp add: sendMessage_def example_defs allowedTypes_def max_file_size_def Let_def
          empty_store_def)
  show ?thesis
    using bad rf ev
      sendMessage_rejected_attachment[OF bad, of "env_of alice ''Alice'' 1000" empty_store]
    by simp
qed

text \<open>
  C3 as stated fails where the receiver names no user: the attachment of a refused type
  is never looked at, and the failure is the 404 of the receiver check.
\<close>

theorem sendMessage_rejected_attachment_counterexample:
  "uploadedFiles (form_request ''65a1b2c3d4e5f60718293a4d'' ''see'' Absent ''attachments''
      [notes_txt]) = [notes_txt]
   \<and> file_mimetype notes_txt \<notin> set allowedTypes
   \<and> sendMessage (env_of alice ''Alice'' 1000)
        (form_request ''65a1b2c3d4e5f60718293a4d'' ''see'' Absent ''attachments'' [notes_txt])
        empty_store = (Inl ReceiverNotFound, empty_store)
   \<and> http_status ReceiverNotFound = 404
   \<and> class_of ReceiverNotFound \<noteq> ValidationError"
  by (simp add: sendMessage_def example_defs allowedTypes_def)

text \<open>
  C4 fails on the code. The guard against sending to oneself compares the receiver as the
  request spells it with \<^verbatim>\<open>req.user.id\<close>, the lower-case text of the sender's id, while the
  lookup before it and \<^verbatim>\<open>Message.create\<close> after it cast that string to an object id. Sent
  her own id in upper case, Alice passes the guard, and a message from Alice to Alice is
  stored.
\<close>

theorem sendMessage_to_self_stored:
  "req_user_id (env_of alice ''Alice'' 1000) = ''65a1b2c3d4e5f60718293a4b''
   \<and> cast_id ''65A1B2C3D4E5F60718293A4B'' = Some (req_user (env_of alice ''Alice'' 1000))
   \<and> fst (sendMessage (env_of alice ''Alice'' 1000)
        (text_request ''65A1B2C3D4E5F60718293A4B'' ''hi'' Absent) empty_store)
      = Inr (msg 4 alice alice ''hi'' 1000 False)
   \<and> messages (snd (sendMessage (env_of alice ''Alice'' 1000)
        (text_request ''65A1B2C3D4E5F60718293A4B'' ''hi'' Absent) empty_store))
      = [msg 4 alice alice ''hi'' 1000 False]
   \<and> sender (msg 4 alice alice ''hi'' 1000 False) = receiver (msg 4 alice alice ''hi'' 1000 False)"
  by (simp add: sendMessage_def example_defs create_def requested_type_def
        messageType_enum_def content_maxlength_def notify_sent_def msg_def Let_def)

text \<open>
  C10. A send request without a receiver identifier (the field absent, \<^verbatim>\<open>null\<close> or
  empty) fails with status 400 and the message "Receiver ID is required", a validation
  error, whatever the user directory, the sender, the content and the files are, and the
  state is left as it was. A receiver id that names no user fails differently: there the
  lookup runs and answers "Receiver not found".
\<close>

theorem sendMessage_receiver_required:
  assumes "falsy (body_receiver rq)"
  shows "sendMessage e rq st = (Inl ReceiverRequired, st)
     \<and> http_status ReceiverRequired = 400
     \<and> error_message ReceiverRequired = Some ''Receiver ID is required''
     \<and> class_of ReceiverRequired = ValidationError
     \<and> (cast_id r = Some rid \<longrightarrow>
          sendMessage e (rq \<lparr> body_receiver := Given r \<rparr>)
              (st \<lparr> users := (users st)(rid := None) \<rparr>)
            = (Inl ReceiverNotFound, st \<lparr> users := (users st)(rid := None) \<rparr>))
     \<and> class_of ReceiverNotFound = NotFound"
proof -
  have a: "sendMessage e rq st = (Inl ReceiverRequired, st)"
    using assms by (cases "body_receiver rq") (simp_all add: sendMessage_def)
  have b: "cast_id r = Some rid \<longrightarrow>
          sendMessage e (rq \<lparr> body_receiver := Given r \<rparr>)
              (st \<lparr> users := (users st)(rid := None) \<rparr>)
            = (Inl ReceiverNotFound, st \<lparr> users := (users st)(rid := None) \<rparr>)"
    by (auto simp: sendMessage_def cast_id_def split: if_splits)
  show ?thesis using a b by simp
qed

theorem sendMessage_receiver_required_witness:
  "falsy (body_receiver ((text_request ''65a1b2c3d4e5f60718293a4c'' ''see'' Absent)
      \<lparr> body_receiver := Absent \<rparr>))
   \<and> sendMessage (env_of alice ''Alice'' 1000)
        ((text_request ''65a1b2c3d4e5f60718293a4c'' ''see'' Absent)
           \<lparr> body_receiver := Absent \<rparr>) empty_store
      = (Inl ReceiverRequired, empty_store)
   \<and> cast_id ''65a1b2c3d4e5f60718293a4d'' = Some carol
   \<and> sendMessage (env_of alice ''Alice'' 1000)
        (text_request ''65a1b2c3d4e5f60718293a4d'' ''see'' Absent) empty_store
      = (Inl ReceiverNotFound, empty_store)"
proof -
  let ?rq = "(text_request ''65a1b2c3d4e5f60718293a4c'' ''see'' Absent)
           \<lparr> body_receiver := Absent \<rparr>"
  have f: "falsy (body_receiver ?rq)" by simp
  have "directory(carol := None) = directory" by (simp add: fun_upd_idem)
  then have u: "empty_store \<lparr> users := directory(carol := None) \<rparr> = empty_store"
    by (simp add: empty_store_def)
  have r: "?rq \<lparr> body_receiver := Given ''65a1b2c3d4e5f60718293a4d'' \<rparr>
      = text_request ''65a1b2c3d4e5f60718293a4d'' ''see'' Absent"
    by (simp add: text_request_def)
  show ?thesis
    using f sendMessage_receiver_required[OF f, of "env_of alice ''Alice'' 1000" empty_store
        "''65a1b2c3d4e5f60718293a4d''" carol]
    by (simp add: u r)
qed

lemma trim_long_text: "trim long_text = long_text"
  unfolding long_text_def
  by (rule trim_keeps) (simp_all add: is_space_def hd_replicate last_replicate)

lemma trim_padded_text: "trim padded_text = ''a''"
proof -
  have a: "dropWhile is_space padded_text = padded_text"
    by (simp add: padded_text_def is_space_def)
  have b: "rev padded_text = replicate 1000 CHR '' '' @ ''a''"
    by (simp add: padded_text_def)
  have "dropWhile is_space (replicate 1000 CHR '' '' @ ''a'') = dropWhile is_space ''a''"
    by (rule dropWhile_append2) (simp add: is_space_def)
  then have c: "dropWhile is_space (replicate 1000 CHR '' '' @ ''a'') = ''a''"
    by (simp add: is_space_def)
  show ?thesis by (simp add: trim_def a b c)
qed

lemma long_text_facts: "long_text \<noteq> []" "length long_text = 1001"
  by (simp_all add: long_text_def)

lemma padded_text_facts: "padded_text \<noteq> []" "length padded_text = 1001"
  by (simp_all add: padded_text_def)

lemma trim_a [simp]: "trim ''a'' = ''a''"
  by (simp add: trim_def is_space_def)

text \<open>
  C5, as amended. A send request whose content is missing, empty or blank once trimmed, or
  longer than 1000 characters once trimmed, always fails and creates no message record.
  When the receiver passes its four checks, missing or blank content is answered with the
  400 of "Message content is required", a validation error. Content that is too long is
  not refused by the handler: a refused attachment is answered first, with a 400, and
  otherwise \<^verbatim>\<open>Message.create\<close> throws on the schema's bound and the server's error
  middleware answers 500. The receiver checks run before all of this and answer for
  themselves, as under C3.
\<close>

theorem sendMessage_rejected_content:
  assumes "blank_content (body_content rq) \<or> long_content (body_content rq)"
  shows "\<exists>err. fst (sendMessage e rq st) = Inl err
     \<and> messages (snd (sendMessage e rq st)) = messages st
     \<and> (case receiver_failure e rq st of
           Some err0 \<Rightarrow> err = err0
         | None \<Rightarrow>
             if blank_content (body_content rq)
             then err = ContentRequired \<and> class_of err = ValidationError
               \<and> http_status err = 400
             else if list_ex rejected_file (uploadedFiles rq)
             then class_of err = ValidationError \<and> http_status err = 400
             else err = SchemaValidation \<and> class_of err = ServerError
               \<and> http_status err = 500)"
proof -
  from sendMessage_bad_content_fails[OF assms]
  obtain err where err: "fst (sendMessage e rq st) = Inl err" by blast
  have "case receiver_failure e rq st of
           Some err0 \<Rightarrow> err = err0
         | None \<Rightarrow>
             if blank_content (body_content rq)
             then err = ContentRequired \<and> class_of err = ValidationError
               \<and> http_status err = 400
             else if list_ex rejected_file (uploadedFiles rq)
             then class_of err = ValidationError \<and> http_status err = 400
             else err = SchemaValidation \<and> class_of err = ServerError
               \<and> http_status err = 500"
    using sendMessage_error[OF err] by (auto split: option.splits if_splits)
  then show ?thesis
    using err sendMessage_failure_messages[OF err] by blast
qed

theorem sendMessage_rejected_content_witness:
  "blank_content (body_content (text_request ''65a1b2c3d4e5f60718293a4c'' ''   '' Absent))
   \<and> sendMessage (env_of alice ''Alice'' 1000)
        (text_request ''65a1b2c3d4e5f60718293a4c'' ''   '' Absent) empty_store
      = (Inl ContentRequired, empty_store)
   \<and> long_content (body_content (text_request ''65a1b2c3d4e5f60718293a4c'' long_text Absent))
   \<and> sendMessage (env_of alice ''Alice'' 1000)
        (text_request ''65a1b2c3d4e5f60718293a4c'' long_text Absent) empty_store
      = (Inl SchemaValidation, empty_store)
   \<and> http_status ContentRequired = 400 \<and> http_status SchemaValidation = 500"
proof -
  let ?e = "env_of alice ''Alice'' 1000"
  let ?b = "text_request ''65a1b2c3d4e5f60718293a4c'' ''   '' Absent"
  let ?l = "text_request ''65a1b2c3d4e5f60718293a4c'' long_text Absent"
  have blank: "blank_content (body_content ?b) \<or> long_content (body_content ?b)"
    by (simp add: text_request_def)
  have long: "blank_content (body_content ?l) \<or> long_content (body_content ?l)"
    by (simp add: text_request_def trim_long_text content_maxlength_def long_text_facts)
  have rf: "receiver_failure ?e ?b empty_store = None" "receiver_failure ?e ?l empty_store = None"
    by (simp_all add: receiver_failure_def text_request_def)
  have nb: "\<not> blank_content (body_content ?l)" "uploadedFiles ?l = []"
    by (simp_all add: text_request_def trim_long_text long_text_facts uploadedFiles_def)
  have st: "snd (sendMessage ?e ?b empty_store) = empty_store"
    "snd (sendMessage ?e ?l empty_store) = empty_store"
    by (simp_all add: sendMessage_def text_request_def uploadedFiles_def trim_long_text
          long_text_facts create_def content_maxlength_def Let_def)
  have p: "\<And>x y. fst x = y \<Longrightarrow> snd x = empty_store \<Longrightarrow> x = (y, empty_store)"
    by auto
  show ?thesis
    using sendMessage_rejected_content[OF blank, of ?e empty_store]
      sendMessage_rejected_content[OF long, of ?e empty_store] rf nb st
    by (auto simp: text_request_def trim_long_text content_maxlength_def long_text_facts
        intro: p)
qed

text \<open>
  C5 as stated fails three times. Blank content sent to a receiver that names no user is
  answered by the 404 of the receiver check, not by a validation error. Content of 1001
  characters that trims to a single one is accepted: the bound is on the trimmed content,
  and a message record is created. And content of 1001 characters that trimming leaves
  alone is refused by an exception that the server answers with 500.
\<close>

theorem sendMessage_rejected_content_counterexample:
  "trim ''   '' = []
   \<and> sendMessage (env_of alice ''Alice'' 1000)
        (text_request ''65a1b2c3d4e5f60718293a4d'' ''   '' Absent) empty_store
      = (Inl ReceiverNotFound, empty_store)
   \<and> class_of ReceiverNotFound \<noteq> ValidationError
   \<and> content_maxlength < length padded_text
   \<and> fst (sendMessage (env_of alice ''Alice'' 1000)
        (text_request ''65a1b2c3d4e5f60718293a4c'' padded_text Absent) empty_store)
      = Inr (msg 4 alice bob ''a'' 1000 False)
   \<and> messages (snd (sendMessage (env_of alice ''Alice'' 1000)
        (text_request ''65a1b2c3d4e5f60718293a4c'' padded_text Absent) empty_store))
      = [msg 4 alice bob ''a'' 1000 False]
   \<and> content_maxlength < length (trim long_text)
   \<and> sendMessage (env_of alice ''Alice'' 1000)
        (text_request ''65a1b2c3d4e5f60718293a4c'' long_text Absent) empty_store
      = (Inl SchemaValidation, empty_store)
   \<and> http_status SchemaValidation = 500
   \<and> class_of SchemaValidation \<noteq> ValidationError"
proof -
  let ?e = "env_of alice ''Alice'' 1000"
  have ev1: "sendMessage ?e (text_request ''65a1b2c3d4e5f60718293a4d'' ''   '' Absent)
      empty_store = (Inl ReceiverNotFound, empty_store)"
    by (simp add: sendMessage_def text_request_def)
  have ev2: "sendMessage ?e (text_request ''65a1b2c3d4e5f60718293a4c'' padded_text Absent)
        empty_store = (Inr (msg 4 alice bob ''a'' 1000 False),
          notify_sent ?e ''65a1b2c3d4e5f60718293a4c'' (msg 4 alice bob ''a'' 1000 False)
            (empty_store \<lparr> messages := [msg 4 alice bob ''a'' 1000 False] \<rparr>))"
    by (simp add: sendMessage_def text_request_def uploadedFiles_def trim_padded_text
          padded_text_facts create_def requested_type_def files_present_def
          messageType_enum_def content_maxlength_def msg_def Let_def)
  have ev3: "sendMessage ?e (text_request ''65a1b2c3d4e5f60718293a4c'' long_text Absent)
      empty_store = (Inl SchemaValidation, empty_store)"
    by (simp add: sendMessage_def text_request_def uploadedFiles_def trim_long_text
          long_text_facts create_def content_maxlength_def Let_def)
  show ?thesis
    by (simp add: ev1 ev2 ev3 notify_sent_def padded_text_facts long_text_facts
          trim_long_text content_maxlength_def)
qed





section \<open>Deleting and typing\<close>

lemma find_None_list_ex: "(find P xs = None) = (\<not> list_ex P xs)"
  by (auto simp: find_None_iff list_ex_iff)

lemma delete_first_distinct:
  "distinct (map f xs) \<Longrightarrow> delete_first (\<lambda>x. f x = k) xs = filter (\<lambda>x. f x \<noteq> k) xs"
proof (induction xs)
  case Nil
  then show ?case by simp
next
  case (Cons x xs)
  show ?case
  proof (cases "f x = k")
    case True
    with Cons.prems have "\<forall>y\<in>set xs. f y \<noteq> k" by (auto simp: image_iff)
    then have "filter (\<lambda>x. f x \<noteq> k) xs = xs" by (simp add: filter_id_conv)
    with True show ?thesis by simp
  next
    case False
    with Cons show ?thesis by simp
  qed
qed

lemma find_distinct:
  "distinct (map f xs) \<Longrightarrow> x \<in> set xs \<Longrightarrow> f x = k \<Longrightarrow> P x
     \<Longrightarrow> find (\<lambda>y. f y = k \<and> P y) xs = Some x"
  by (induction xs) (auto simp: image_iff)

text \<open>
  C8, as amended. The id of the route is cast to an object id first; a string that is
  none makes the lookup throw, which the server answers with 500, and the state is left
  as it was. For a well-formed id, deleting a message that does not exist, or that another
  user sent, is answered by one and the same 404, "Message not found or you are not
  authorized to delete this message", and the state is left as it was. When the caller is
  the sender the record is returned and removed: the collection keeps exactly the messages
  with another id.
\<close>

theorem deleteMessage_sender_only:
  "(cast_id i = None \<longrightarrow>
      deleteMessage e i st = (Inl CastError, st) \<and> http_status CastError = 500)
   \<and> (cast_id i = Some oid
        \<and> \<not> list_ex (\<lambda>m. m_id m = oid \<and> sender m = req_user e) (messages st) \<longrightarrow>
      deleteMessage e i st = (Inl MessageNotFound, st)
      \<and> class_of MessageNotFound = NotFound \<and> http_status MessageNotFound = 404)
   \<and> (wf_store st \<and> cast_id i = Some oid \<and> m \<in> set (messages st) \<and> m_id m = oid
        \<and> sender m = req_user e \<longrightarrow>
      fst (deleteMessage e i st) = Inr (Some m)
      \<and> messages (snd (deleteMessage e i st)) = filter (\<lambda>x. m_id x \<noteq> oid) (messages st)
      \<and> m \<notin> set (messages (snd (deleteMessage e i st))))"
proof (intro conjI impI)
  assume "cast_id i = None"
  then show "deleteMessage e i st = (Inl CastError, st)" by (simp add: deleteMessage_def)
next
  assume a: "cast_id i = Some oid
        \<and> \<not> list_ex (\<lambda>m. m_id m = oid \<and> sender m = req_user e) (messages st)"
  then have "find (\<lambda>m. m_id m = oid \<and> sender m = req_user e) (messages st) = None"
    by (simp add: find_None_list_ex)
  then show "deleteMessage e i st = (Inl MessageNotFound, st)"
    using a by (simp add: deleteMessage_def)
next
  assume a: "wf_store st \<and> cast_id i = Some oid \<and> m \<in> set (messages st) \<and> m_id m = oid
        \<and> sender m = req_user e"
  then have d: "distinct (map m_id (messages st))" by (simp add: wf_store_def)
  have f1: "find (\<lambda>y. m_id y = oid \<and> sender y = req_user e) (messages st) = Some m"
    using find_distinct[OF d, of m oid "\<lambda>y. sender y = req_user e"] a by simp
  have f2: "find (\<lambda>y. m_id y = oid) (messages st) = Some m"
    using find_distinct[OF d, of m oid "\<lambda>y. True"] a by simp
  show "fst (deleteMessage e i st) = Inr (Some m)"
    using a by (simp add: deleteMessage_def findByIdAndDelete_def f1 f2)
  show r: "messages (snd (deleteMessage e i st)) = filter (\<lambda>x. m_id x \<noteq> oid) (messages st)"
    using a by (simp add: deleteMessage_def findByIdAndDelete_def f1 delete_first_distinct[OF d])
  show "m \<notin> set (messages (snd (deleteMessage e i st)))"
    using a by (simp add: r)
qed simp_all

lemma msg_ids_simps [simp]:
  "msg_ids ! 0 = ObjectId ''65b000000000000000000000''"
  "msg_ids ! 1 = ObjectId ''65b000000000000000000001''"
  "msg_ids ! Suc 0 = ObjectId ''65b000000000000000000001''"
  "msg_ids ! 2 = ObjectId ''65b000000000000000000002''"
  "msg_ids ! 3 = ObjectId ''65b000000000000000000003''"
  "msg_ids ! 4 = ObjectId ''65b000000000000000000004''"
  by (simp_all add: msg_ids_def)

lemma msg_ids_cast [simp]:
  "cast_id ''65b000000000000000000000'' = Some (ObjectId ''65b000000000000000000000'')"
  "cast_id ''65b000000000000000000001'' = Some (ObjectId ''65b000000000000000000001'')"
  "cast_id ''65b000000000000000000009'' = Some (ObjectId ''65b000000000000000000009'')"
  by (simp_all add: cast_id_def is_hex_def lower_hex_def)

lemma canonical_9 [simp]: "canonical ''65b000000000000000000009''"
  by (simp add: canonical_def is_lower_hex_def)

lemma chat_messages:
  "messages chat_store =
     [msg 0 alice bob ''hi'' 10 True, msg 1 bob alice ''hello'' 20 False,
      msg 2 carol alice ''hey'' 30 False, msg 3 bob alice ''there?'' 40 False]"
  by (simp add: chat_store_def)

lemma chat_store_wf: "wf_store chat_store"
  by (simp add: wf_store_def chat_messages msg_def ObjectId_inject)

theorem deleteMessage_sender_only_witness:
  "cast_id ''7'' = None
   \<and> deleteMessage (env_of alice ''Alice'' 1000) ''7'' chat_store = (Inl CastError, chat_store)
   \<and> cast_id ''65b000000000000000000001'' = Some (m_id (msg 1 bob alice ''hello'' 20 False))
   \<and> \<not> list_ex (\<lambda>m. m_id m = m_id (msg 1 bob alice ''hello'' 20 False)
          \<and> sender m = req_user (env_of alice ''Alice'' 1000)) (messages chat_store)
   \<and> deleteMessage (env_of alice ''Alice'' 1000) ''65b000000000000000000001'' chat_store
       = (Inl MessageNotFound, chat_store)
   \<and> deleteMessage (env_of alice ''Alice'' 1000) ''65b000000000000000000009'' chat_store
       = (Inl MessageNotFound, chat_store)
   \<and> wf_store chat_store \<and> msg 0 alice bob ''hi'' 10 True \<in> set (messages chat_store)
   \<and> cast_id ''65b000000000000000000000'' = Some (m_id (msg 0 alice bob ''hi'' 10 True))
   \<and> sender (msg 0 alice bob ''hi'' 10 True) = req_user (env_of alice ''Alice'' 1000)
   \<and> fst (deleteMessage (env_of alice ''Alice'' 1000) ''65b000000000000000000000'' chat_store)
       = Inr (Some (msg 0 alice bob ''hi'' 10 True))
   \<and> messages (snd (deleteMessage (env_of alice ''Alice'' 1000) ''65b000000000000000000000''
        chat_store))
       = [msg 1 bob alice ''hello'' 20 False, msg 2 carol alice ''hey'' 30 False,
          msg 3 bob alice ''there?'' 40 False]"
proof -
  let ?e = "env_of alice ''Alice'' 1000"
  let ?m0 = "msg 0 alice bob ''hi'' 10 True"
  have c0: "cast_id ''7'' = None" by simp
  have a: "cast_id ''65b000000000000000000001'' = Some (ObjectId ''65b000000000000000000001'')
     \<and> \<not> list_ex (\<lambda>m. m_id m = ObjectId ''65b000000000000000000001''
          \<and> sender m = req_user ?e) (messages chat_store)"
    by (simp add: chat_messages msg_def ObjectId_inject)
  have b: "cast_id ''65b000000000000000000009'' = Some (ObjectId ''65b000000000000000000009'')
     \<and> \<not> list_ex (\<lambda>m. m_id m = ObjectId ''65b000000000000000000009''
          \<and> sender m = req_user ?e) (messages chat_store)"
    by (simp add: chat_messages msg_def ObjectId_inject)
  have c: "wf_store chat_store
     \<and> cast_id ''65b000000000000000000000'' = Some (ObjectId ''65b000000000000000000000'')
     \<and> ?m0 \<in> set (messages chat_store)
     \<and> m_id ?m0 = ObjectId ''65b000000000000000000000''
     \<and> sender ?m0 = req_user ?e"
    by (simp add: chat_store_wf chat_messages) (simp add: msg_def)
  have d: "filter (\<lambda>x. m_id x \<noteq> ObjectId ''65b000000000000000000000'') (messages chat_store)
       = [msg 1 bob alice ''hello'' 20 False, msg 2 carol alice ''hey'' 30 False,
          msg 3 bob alice ''there?'' 40 False]"
    by (simp add: chat_messages msg_def ObjectId_inject)
  have m1: "m_id (msg 1 bob alice ''hello'' 20 False) = ObjectId ''65b000000000000000000001''"
    by (simp add: msg_def)
  note t = deleteMessage_sender_only[where e = ?e and st = chat_store]
  from t[where i = "''7''" and oid = alice and m = ?m0] c0
  have r0: "deleteMessage ?e ''7'' chat_store = (Inl CastError, chat_store)" by blast
  from t[where i = "''65b000000000000000000001''"
      and oid = "ObjectId ''65b000000000000000000001''" and m = ?m0] a
  have r1: "deleteMessage ?e ''65b000000000000000000001'' chat_store
      = (Inl MessageNotFound, chat_store)" by blast
  from t[where i = "''65b000000000000000000009''"
      and oid = "ObjectId ''65b000000000000000000009''" and m = ?m0] b
  have r2: "deleteMessage ?e ''65b000000000000000000009'' chat_store
      = (Inl MessageNotFound, chat_store)" by blast
  from t[where i = "''65b000000000000000000000''"
      and oid = "ObjectId ''65b000000000000000000000''" and m = ?m0] c
  have r3: "fst (deleteMessage ?e ''65b000000000000000000000'' chat_store) = Inr (Some ?m0)
    \<and> messages (snd (deleteMessage ?e ''65b000000000000000000000'' chat_store))
      = filter (\<lambda>x. m_id x \<noteq> ObjectId ''65b000000000000000000000'') (messages chat_store)"
    by blast
  show ?thesis
    using c0 a c r0 r1 r2 r3 by (simp add: d) (simp add: msg_def)
qed

text \<open>
  C8 as stated fails for an id that is no object id: no message has the id \<^verbatim>\<open>7\<close>, and
  the answer is not the 404 but the 500 of the cast that throws.
\<close>

theorem deleteMessage_sender_only_counterexample:
  "cast_id ''7'' = None
   \<and> deleteMessage (env_of alice ''Alice'' 1000) ''7'' chat_store = (Inl CastError, chat_store)
   \<and> http_status CastError = 500
   \<and> class_of CastError \<noteq> NotFound"
  by (simp add: deleteMessage_def)

lemma typing_frame:
  "snd (sendTypingIndicator e rq st)
     = st \<lparr> emitted := emitted (snd (sendTypingIndicator e rq st)) \<rparr>"
  by (simp add: sendTypingIndicator_def emit_def split: field.splits)

lemma typing_calls_frame:
  "typing_calls cs st = st \<lparr> emitted := emitted (typing_calls cs st) \<rparr>"
proof (induction cs st rule: typing_calls.induct)
  case (1 st)
  then show ?case by simp
next
  case (2 e rq cs st)
  let ?s = "snd (sendTypingIndicator e rq st)"
  have "typing_calls cs ?s = ?s \<lparr> emitted := emitted (typing_calls cs ?s) \<rparr>" by (rule 2)
  also have "\<dots> = st \<lparr> emitted := emitted (typing_calls cs ?s) \<rparr>"
    by (subst typing_frame) simp
  finally show ?case by simp
qed

lemma typing_calls_messages: "messages (typing_calls cs st) = messages st"
  by (subst typing_calls_frame) simp

text \<open>
  C9. A typing-indicator call changes nothing in the state but the log of emitted
  events, and so does any sequence of such calls, by whatever callers: the message
  collection is as it was. The call fails exactly when the receiver id is missing (absent,
  \<^verbatim>\<open>null\<close> or empty), with the 400 of "Receiver ID is required"; otherwise it succeeds.
\<close>

theorem sendTypingIndicator_no_persistence:
  "messages (snd (sendTypingIndicator e rq st)) = messages st
   \<and> messages (typing_calls cs st) = messages st
   \<and> typing_calls cs st = st \<lparr> emitted := emitted (typing_calls cs st) \<rparr>
   \<and> (fst (sendTypingIndicator e rq st) = Inl ReceiverRequired) = falsy (body_receiverId rq)
   \<and> (\<exists>err. fst (sendTypingIndicator e rq st) = Inl err) = falsy (body_receiverId rq)
   \<and> class_of ReceiverRequired = ValidationError
   \<and> http_status ReceiverRequired = 400"
proof -
  have "messages (snd (sendTypingIndicator e rq st)) = messages st"
    by (subst typing_frame) simp
  moreover have "(fst (sendTypingIndicator e rq st) = Inl ReceiverRequired)
      = falsy (body_receiverId rq)"
    "(\<exists>err. fst (sendTypingIndicator e rq st) = Inl err) = falsy (body_receiverId rq)"
    by (cases "body_receiverId rq"; simp add: sendTypingIndicator_def)+
  ultimately show ?thesis
    using typing_calls_messages[of cs st] typing_calls_frame[of cs st] by simp
qed

section \<open>Reading a conversation\<close>

lemma exec_q_conversation:
  "0 \<le> sk \<Longrightarrow> l \<noteq> 0 \<Longrightarrow>
   exec_q (sort_q CreatedAtDesc (limit_q l (skip_q sk (find_q p)))) docs
     = Inr (take (nat \<bar>l\<bar>) (drop (nat sk) (sort_desc createdAt (filter p docs))))"
  by (simp add: exec_q_def sort_q_def limit_q_def skip_q_def find_q_def Let_def)

lemma exec_q_negative_skip:
  "sk < 0 \<Longrightarrow>
   exec_q (sort_q CreatedAtDesc (limit_q l (skip_q sk (find_q p)))) docs = Inl QueryRejected"
  by (simp add: exec_q_def sort_q_def limit_q_def skip_q_def find_q_def Let_def)

lemma limit_of_nonzero: "limit_of rq \<noteq> 0"
  by (simp add: limit_of_def parsed_or_def split: option.splits)

lemma getConversation_refused:
  assumes "cast_id (param_userId rq) = Some p" and "users st p = Some pu"
    and "skip_of rq < 0"
  shows "getConversation e rq st = (Inl QueryRejected, st)"
  unfolding getConversation_def Let_def
  by (simp add: assms exec_q_negative_skip)

lemma getConversation_state:
  assumes "cast_id (param_userId rq) = Some p" and "users st p = Some pu"
    and "0 \<le> skip_of rq"
  shows "snd (getConversation e rq st) =
     (if filter (unread_from p (req_user e)) (messages st) \<noteq> []
      then emit (param_userId rq) ''messages_read''
             (MessagesRead (req_user_id e)
                (map m_id (filter (unread_from p (req_user e)) (messages st))))
             (st \<lparr> messages := updateMany (unread_from p (req_user e))
                      (mark_read (now e)) (messages st) \<rparr>)
      else st)"
  unfolding getConversation_def Let_def
  by (simp add: assms exec_q_conversation[OF assms(3) limit_of_nonzero])


lemma updateMany_none: "filter p xs = [] \<Longrightarrow> updateMany p f xs = xs"
  by (induction xs) (auto simp: updateMany_def split: if_splits)

lemma unread_after_sweep:
  "filter (unread_from p u) (updateMany (unread_from p u) (mark_read t) xs) = []"
  by (induction xs) (auto simp: updateMany_def unread_from_def mark_read_def)

lemma count_after_sweep:
  "countDocuments (\<lambda>m. receiver m = u \<and> isRead m = False) xs
     = countDocuments (\<lambda>m. receiver m = u \<and> isRead m = False)
         (updateMany (unread_from p u) (mark_read t) xs)
       + length (filter (unread_from p u) xs)"
  by (induction xs) (auto simp: countDocuments_def updateMany_def unread_from_def mark_read_def)

lemma getConversation_messages:
  assumes "cast_id (param_userId rq) = Some p" and "users st p = Some pu"
    and "0 \<le> skip_of rq"
  shows "messages (snd (getConversation e rq st))
     = updateMany (unread_from p (req_user e)) (mark_read (now e)) (messages st)"
  by (simp add: getConversation_state[OF assms] updateMany_none)

lemma getConversation_users:
  assumes "cast_id (param_userId rq) = Some p" and "users st p = Some pu"
    and "0 \<le> skip_of rq"
  shows "users (snd (getConversation e rq st)) = users st"
  by (simp add: getConversation_state[OF assms])

text \<open>
  C2, as amended. Let the route name a user p. The handler queries the page before it
  sweeps, so a call whose offset \<open>(page - 1) * limit\<close> is negative, which the store
  refuses, fails with the state as it was and marks nothing. In every other call (the
  default page and limit among them) viewing the conversation with p marks, in one update
  of the collection, exactly the unread messages from p to the caller as read, with
  \<^verbatim>\<open>readAt\<close> the time of the call, and leaves every other message as it was; afterwards
  no message from p to the caller is unread, the caller's unread count has gone down by
  the number of messages so marked, and viewing the conversation again, at any later time,
  changes nothing at all: no message is marked and no read receipt is emitted.
\<close>

theorem getConversation_read_sweep:
  assumes "cast_id (param_userId rq) = Some p" and "users st p \<noteq> None"
  shows "(skip_of rq < 0 \<longrightarrow> getConversation e rq st = (Inl QueryRejected, st))
     \<and> (0 \<le> skip_of rq \<longrightarrow>
          messages (snd (getConversation e rq st))
            = map (\<lambda>m. if sender m = p \<and> receiver m = req_user e \<and> \<not> isRead m
                       then m \<lparr> isRead := True, readAt := Some (now e) \<rparr> else m) (messages st)
          \<and> \<not> list_ex (\<lambda>m. sender m = p \<and> receiver m = req_user e \<and> \<not> isRead m)
                (messages (snd (getConversation e rq st)))
          \<and> getUnreadCount e st
            = getUnreadCount e (snd (getConversation e rq st))
              + length (filter (\<lambda>m. sender m = p \<and> receiver m = req_user e \<and> \<not> isRead m)
                  (messages st))
          \<and> snd (getConversation (e \<lparr> now := t' \<rparr>) rq (snd (getConversation e rq st)))
            = snd (getConversation e rq st))"
proof (intro conjI impI)
  from assms(2) obtain pu where pu: "users st p = Some pu" by blast
  {
    assume "skip_of rq < 0"
    then show "getConversation e rq st = (Inl QueryRejected, st)"
      by (rule getConversation_refused[OF assms(1) pu])
  }
  assume sk: "0 \<le> skip_of rq"
  let ?u = "req_user e"
  let ?st1 = "snd (getConversation e rq st)"
  have uf: "unread_from p ?u = (\<lambda>m. sender m = p \<and> receiver m = ?u \<and> \<not> isRead m)"
    by (simp add: unread_from_def fun_eq_iff)
  have m1: "messages ?st1 = updateMany (unread_from p ?u) (mark_read (now e)) (messages st)"
    by (rule getConversation_messages[OF assms(1) pu sk])
  show "messages ?st1 = map (\<lambda>m. if sender m = p \<and> receiver m = ?u \<and> \<not> isRead m
                  then m \<lparr> isRead := True, readAt := Some (now e) \<rparr> else m) (messages st)"
    by (simp add: m1 updateMany_def unread_from_def mark_read_def)
  have none: "filter (unread_from p ?u) (messages ?st1) = []"
    by (simp add: m1 unread_after_sweep)
  then show "\<not> list_ex (\<lambda>m. sender m = p \<and> receiver m = ?u \<and> \<not> isRead m) (messages ?st1)"
    unfolding uf by (simp add: list_ex_iff filter_empty_conv)
  show "getUnreadCount e st = getUnreadCount e ?st1
         + length (filter (\<lambda>m. sender m = p \<and> receiver m = ?u \<and> \<not> isRead m) (messages st))"
    unfolding getUnreadCount_def m1 uf[symmetric] by (rule count_after_sweep)
  have pu1: "users ?st1 p = Some pu"
    by (simp add: getConversation_users[OF assms(1) pu sk] pu)
  show "snd (getConversation (e \<lparr> now := t' \<rparr>) rq ?st1) = ?st1"
    using none by (simp add: getConversation_state[OF assms(1) pu1 sk])
qed

lemma view_request_simps [simp]:
  "param_userId (view_request p pg lm) = p"
  "page_of (view_request p pg lm) = parsed_or pg 1"
  "limit_of (view_request p pg lm) = parsed_or lm 50"
  "skip_of (view_request p pg lm) = (parsed_or pg 1 - 1) * parsed_or lm 50"
  by (simp_all add: view_request_def page_of_def limit_of_def skip_of_def)

lemma parsed_or_simps [simp]:
  "parsed_or None d = d" "parsed_or (Some 2) d = 2" "parsed_or (Some (- 1)) d = - 1"
  by (simp_all add: parsed_or_def)

theorem getConversation_read_sweep_witness:
  "cast_id (param_userId (view_request ''65a1b2c3d4e5f60718293a4c'' None None)) = Some bob
   \<and> users chat_store bob \<noteq> None
   \<and> 0 \<le> skip_of (view_request ''65a1b2c3d4e5f60718293a4c'' None None)
   \<and> messages (snd (getConversation (env_of alice ''Alice'' 1000)
        (view_request ''65a1b2c3d4e5f60718293a4c'' None None) chat_store))
     = [msg 0 alice bob ''hi'' 10 True,
        msg 1 bob alice ''hello'' 20 True \<lparr> readAt := Some 1000 \<rparr>,
        msg 2 carol alice ''hey'' 30 False,
        msg 3 bob alice ''there?'' 40 True \<lparr> readAt := Some 1000 \<rparr>]
   \<and> getUnreadCount (env_of alice ''Alice'' 1000) chat_store = 3
   \<and> getUnreadCount (env_of alice ''Alice'' 1000)
        (snd (getConversation (env_of alice ''Alice'' 1000)
           (view_request ''65a1b2c3d4e5f60718293a4c'' None None) chat_store)) = 1
   \<and> snd (getConversation (env_of alice ''Alice'' 2000)
        (view_request ''65a1b2c3d4e5f60718293a4c'' None None)
        (snd (getConversation (env_of alice ''Alice'' 1000)
           (view_request ''65a1b2c3d4e5f60718293a4c'' None None) chat_store)))
     = snd (getConversation (env_of alice ''Alice'' 1000)
           (view_request ''65a1b2c3d4e5f60718293a4c'' None None) chat_store)
   \<and> skip_of (view_request ''65a1b2c3d4e5f60718293a4c'' (Some (- 1)) None) < 0
   \<and> getConversation (env_of alice ''Alice'' 1000)
        (view_request ''65a1b2c3d4e5f60718293a4c'' (Some (- 1)) None) chat_store
     = (Inl QueryRejected, chat_store)"
proof -
  let ?e = "env_of alice ''Alice'' 1000"
  let ?rq = "view_request ''65a1b2c3d4e5f60718293a4c'' None None"
  let ?bad = "view_request ''65a1b2c3d4e5f60718293a4c'' (Some (- 1)) None"
  let ?st1 = "snd (getConversation ?e ?rq chat_store)"
  have h1: "cast_id (param_userId ?rq) = Some bob" "cast_id (param_userId ?bad) = Some bob"
    by simp_all
  have h2: "users chat_store bob \<noteq> None" by simp
  have sk: "0 \<le> skip_of ?rq" "skip_of ?bad < 0" by simp_all
  have c: "getUnreadCount ?e chat_store = 3"
    by (simp add: getUnreadCount_def countDocuments_def chat_messages msg_def)
  have n: "length (filter (\<lambda>m. sender m = bob \<and> receiver m = req_user ?e \<and> \<not> isRead m)
      (messages chat_store)) = 2"
    by (simp add: chat_messages msg_def)
  have e2: "?e \<lparr> now := 2000 \<rparr> = env_of alice ''Alice'' 2000"
    by (simp add: env_of_def)
  note t = getConversation_read_sweep[OF h1(1) h2, of ?e 2000]
  from t sk(1) have
    a: "messages ?st1
            = map (\<lambda>m. if sender m = bob \<and> receiver m = req_user ?e \<and> \<not> isRead m
                       then m \<lparr> isRead := True, readAt := Some (now ?e) \<rparr> else m)
                (messages chat_store)"
    and b: "getUnreadCount ?e chat_store = getUnreadCount ?e ?st1
              + length (filter (\<lambda>m. sender m = bob \<and> receiver m = req_user ?e \<and> \<not> isRead m)
                  (messages chat_store))"
    and d: "snd (getConversation (?e \<lparr> now := 2000 \<rparr>) ?rq ?st1) = ?st1"
    by blast+
  have a': "messages ?st1 = [msg 0 alice bob ''hi'' 10 True,
        msg 1 bob alice ''hello'' 20 True \<lparr> readAt := Some 1000 \<rparr>,
        msg 2 carol alice ''hey'' 30 False,
        msg 3 bob alice ''there?'' 40 True \<lparr> readAt := Some 1000 \<rparr>]"
    unfolding a by (simp add: chat_messages msg_def)
  have b': "getUnreadCount ?e ?st1 = 1" using b c n by simp
  have d': "snd (getConversation (env_of alice ''Alice'' 2000) ?rq ?st1) = ?st1"
    using d by (simp only: e2)
  from getConversation_read_sweep[OF h1(2) h2, of ?e 2000] sk(2)
  have r: "getConversation ?e ?bad chat_store = (Inl QueryRejected, chat_store)" by blast
  show ?thesis
    by (intro conjI h1(1) h2 sk a' c b' d' r)
qed

text \<open>
  C2 as stated fails for a page the store refuses: with \<^verbatim>\<open>page=-1\<close> the call fails
  before the sweep, and the unread message from Bob to Alice stays unread.
\<close>

theorem getConversation_read_sweep_counterexample:
  "getConversation (env_of alice ''Alice'' 1000)
      (view_request ''65a1b2c3d4e5f60718293a4c'' (Some (- 1)) None) chat_store
     = (Inl QueryRejected, chat_store)
   \<and> msg 1 bob alice ''hello'' 20 False \<in> set (messages chat_store)
   \<and> sender (msg 1 bob alice ''hello'' 20 False) = bob
   \<and> receiver (msg 1 bob alice ''hello'' 20 False) = req_user (env_of alice ''Alice'' 1000)
   \<and> \<not> isRead (msg 1 bob alice ''hello'' 20 False)"
proof -
  have "getConversation (env_of alice ''Alice'' 1000)
      (view_request ''65a1b2c3d4e5f60718293a4c'' (Some (- 1)) None) chat_store
     = (Inl QueryRejected, chat_store)"
    by (rule getConversation_refused[where p = bob]) simp_all
  then show ?thesis by (simp add: chat_messages) (simp add: msg_def)
qed

section \<open>The page of a conversation\<close>



lemma sorted_sort_desc: "sorted (map (\<lambda>x. - f x) (sort_desc f xs))"
  by (simp add: sort_desc_def)

lemma set_sort_desc [simp]: "set (sort_desc f xs) = set xs"
  by (simp add: sort_desc_def)








section \<open>The conversation list\<close>

lemma group_add_distinct:
  "distinct (map g_id gs) \<Longrightarrow>
   group_add u m gs =
     (if peer_of u m \<in> g_id ` set gs
      then map (\<lambda>g. if g_id g = peer_of u m
                      then g \<lparr> unreadCount := unreadCount g + unread_inc u m,
                               totalMessages := totalMessages g + 1 \<rparr>
                      else g) gs
      else gs @ [\<lparr> g_id = peer_of u m, lastMessage = m, unreadCount = unread_inc u m,
                    totalMessages = 1, c_user = None \<rparr>])"
proof (induction gs)
  case Nil
  then show ?case by simp
next
  case (Cons g gs)
  show ?case
  proof (cases "g_id g = peer_of u m")
    case True
    with Cons.prems have "\<forall>x\<in>set gs. g_id x \<noteq> peer_of u m" by (auto simp: image_iff)
    then have "map (\<lambda>g. if g_id g = peer_of u m
                      then g \<lparr> unreadCount := unreadCount g + unread_inc u m,
                               totalMessages := totalMessages g + 1 \<rparr>
                      else g) gs = gs"
      by (simp add: map_idI)
    with True show ?thesis by simp
  next
    case False
    with Cons show ?thesis by simp
  qed
qed

lemma group_stage_snoc: "group_stage u (docs @ [m]) = group_add u m (group_stage u docs)"
  by (simp add: group_stage_def)

lemma group_stage_ids:
  "distinct (map g_id (group_stage u docs))
   \<and> set (map g_id (group_stage u docs)) = peer_of u ` set docs"
proof (induction docs rule: rev_induct)
  case Nil
  then show ?case by (simp add: group_stage_def)
next
  case (snoc m docs)
  let ?ids = "map g_id (group_stage u docs)"
  let ?ids' = "map g_id (group_stage u (docs @ [m]))"
  from snoc have d: "distinct ?ids" and s: "set ?ids = peer_of u ` set docs" by blast+
  show ?case
  proof (cases "peer_of u m \<in> g_id ` set (group_stage u docs)")
    case True
    have eq: "?ids' = ?ids"
      by (simp add: group_stage_snoc group_add_distinct[OF d] True o_def if_distrib
            cong: if_cong)
    from True have "peer_of u m \<in> peer_of u ` set docs" using s by simp
    then have "peer_of u ` set (docs @ [m]) = peer_of u ` set docs" by auto
    then show ?thesis unfolding eq using d s by simp
  next
    case False
    have eq: "?ids' = ?ids @ [peer_of u m]"
      using False by (simp add: group_stage_snoc group_add_distinct[OF d])
    have "peer_of u ` set (docs @ [m]) = insert (peer_of u m) (peer_of u ` set docs)" by auto
    then show ?thesis unfolding eq using d s False by simp
  qed
qed

lemma unread_inc_sum:
  "sum_list (map (unread_inc u) xs) = length (filter (\<lambda>m. receiver m = u \<and> isRead m = False) xs)"
  by (induction xs) (simp_all add: unread_inc_def)

lemma group_stage_fields:
  "g \<in> set (group_stage u docs) \<Longrightarrow>
     filter (\<lambda>m. peer_of u m = g_id g) docs \<noteq> []
     \<and> lastMessage g = hd (filter (\<lambda>m. peer_of u m = g_id g) docs)
     \<and> unreadCount g = sum_list (map (unread_inc u) (filter (\<lambda>m. peer_of u m = g_id g) docs))
     \<and> totalMessages g = length (filter (\<lambda>m. peer_of u m = g_id g) docs)
     \<and> c_user g = None"
proof (induction docs arbitrary: g rule: rev_induct)
  case Nil
  then show ?case by (simp add: group_stage_def)
next
  case (snoc m docs)
  let ?G = "group_stage u docs"
  have d: "distinct (map g_id ?G)" and s: "set (map g_id ?G) = peer_of u ` set docs"
    using group_stage_ids[of u docs] by blast+
  show ?case
  proof (cases "peer_of u m \<in> g_id ` set ?G")
    case True
    from snoc.prems obtain g0 where g0: "g0 \<in> set ?G"
      and g: "g = (if g_id g0 = peer_of u m
                   then g0 \<lparr> unreadCount := unreadCount g0 + unread_inc u m,
                             totalMessages := totalMessages g0 + 1 \<rparr>
                   else g0)"
      by (auto simp: group_stage_snoc group_add_distinct[OF d] True)
    note ih = snoc.IH[OF g0]
    show ?thesis
    proof (cases "g_id g0 = peer_of u m")
      case True
      then show ?thesis using ih g by (simp add: hd_append)
    next
      case False
      then show ?thesis using ih g by simp
    qed
  next
    case False
    then have "peer_of u m \<notin> peer_of u ` set docs" using s by simp
    then have none: "filter (\<lambda>x. peer_of u x = peer_of u m) docs = []"
      unfolding filter_empty_conv by (metis imageI)
    from snoc.prems False have
      "g \<in> set ?G \<or> g = \<lparr> g_id = peer_of u m, lastMessage = m, unreadCount = unread_inc u m,
                    totalMessages = 1, c_user = None \<rparr>"
      by (auto simp: group_stage_snoc group_add_distinct[OF d])
    then show ?thesis
    proof
      assume g0: "g \<in> set ?G"
      then have "g_id g \<noteq> peer_of u m" using False by (metis imageI)
      then show ?thesis using snoc.IH[OF g0] by simp
    next
      assume "g = \<lparr> g_id = peer_of u m, lastMessage = m, unreadCount = unread_inc u m,
                    totalMessages = 1, c_user = None \<rparr>"
      then show ?thesis using none by simp
    qed
  qed
qed


lemma lookup_unwind_ids:
  "map g_id (lookup_unwind us gs) = filter (\<lambda>k. us k \<noteq> None) (map g_id gs)"
  by (induction gs) (auto simp: lookup_unwind_def split: option.splits)

lemma lookup_unwind_set:
  "c \<in> set (lookup_unwind us gs) \<Longrightarrow>
     \<exists>g\<in>set gs. us (g_id g) \<noteq> None \<and> c = g \<lparr> c_user := us (g_id g) \<rparr>"
  by (induction gs) (auto simp: lookup_unwind_def split: option.splits)

lemma filter_sort_desc: "filter P (sort_desc f xs) = sort_desc f (filter P xs)"
  by (simp add: sort_desc_def filter_sort)

lemma length_sort_desc [simp]: "length (sort_desc f xs) = length xs"
  by (simp add: sort_desc_def)

lemma sort_desc_Nil [simp]: "(sort_desc f xs = []) = (xs = [])"
  by (metis length_sort_desc length_0_conv)

lemma distinct_map_sort_desc:
  "distinct (map g (sort_desc f xs)) = distinct (map g xs)"
  by (simp add: distinct_map sort_desc_def)

lemma hd_sorted_desc:
  "sorted (map (\<lambda>x. - f x) ys) \<Longrightarrow> y \<in> set ys \<Longrightarrow> f y \<le> f (hd ys)"
  for f :: "'a \<Rightarrow> int"
  by (cases ys) auto

lemma hd_sort_desc:
  assumes "y \<in> set xs"
  shows "hd (sort_desc f xs) \<in> set xs \<and> f y \<le> f (hd (sort_desc f xs))"
proof -
  have ne: "sort_desc f xs \<noteq> []" using assms by auto
  then have "hd (sort_desc f xs) \<in> set (sort_desc f xs)" by (rule hd_in_set)
  moreover have "f y \<le> f (hd (sort_desc f xs))"
    using assms by (intro hd_sorted_desc sorted_sort_desc) simp
  ultimately show ?thesis by simp
qed

lemma between_peer_of:
  "((sender m = u \<or> receiver m = u) \<and> peer_of u m = k) = between u k m"
  by (auto simp: between_def peer_of_def)

lemma peer_group_docs:
  "filter (\<lambda>m. peer_of u m = k)
     (sort_desc createdAt (filter (\<lambda>m. sender m = u \<or> receiver m = u) docs))
   = sort_desc createdAt (filter (between u k) docs)"
  by (simp add: filter_sort_desc between_peer_of)

lemma peers_of_docs:
  "peer_of u ` set (sort_desc createdAt (filter (\<lambda>m. sender m = u \<or> receiver m = u) docs))
   = {k. \<exists>m\<in>set docs. between u k m}" (is "?L = ?R")
proof (rule set_eqI)
  fix k
  have "k \<in> ?L \<longleftrightarrow> (\<exists>m\<in>set docs. (sender m = u \<or> receiver m = u) \<and> peer_of u m = k)"
    by (auto simp: image_iff)
  also have "\<dots> \<longleftrightarrow> (\<exists>m\<in>set docs. between u k m)"
    by (simp only: between_peer_of)
  finally show "k \<in> ?L \<longleftrightarrow> k \<in> ?R" by simp
qed

lemma getConversations_row:
  assumes "c \<in> set (getConversations e st)"
  shows "filter (between (req_user e) (g_id c)) (messages st) \<noteq> []
     \<and> lastMessage c
         = hd (sort_desc createdAt (filter (between (req_user e) (g_id c)) (messages st)))
     \<and> unreadCount c
         = length (filter (\<lambda>m. between (req_user e) (g_id c) m \<and> receiver m = req_user e
                               \<and> \<not> isRead m) (messages st))
     \<and> totalMessages c = length (filter (between (req_user e) (g_id c)) (messages st))
     \<and> users st (g_id c) \<noteq> None
     \<and> c_user c = users st (g_id c)"
proof -
  let ?u = "req_user e"
  let ?docs = "sort_desc createdAt (filter (\<lambda>m. sender m = ?u \<or> receiver m = ?u) (messages st))"
  from assms have "c \<in> set (lookup_unwind (users st) (group_stage ?u ?docs))"
    by (simp add: getConversations_def Let_def)
  from lookup_unwind_set[OF this] obtain g where g: "g \<in> set (group_stage ?u ?docs)"
    and us: "users st (g_id g) \<noteq> None" and c: "c = g \<lparr> c_user := users st (g_id g) \<rparr>"
    by blast
  note f = group_stage_fields[OF g, unfolded peer_group_docs]
  have "unreadCount g = length (filter (\<lambda>m. between ?u (g_id g) m \<and> receiver m = ?u \<and> \<not> isRead m)
      (messages st))"
    using f by (simp add: unread_inc_sum filter_sort_desc)
  then show ?thesis using f us c by simp
qed

text \<open>
  C1, as amended. The conversation list of a user has exactly one row for every peer who
  shares a message with the user in the collection and whose account is still in the user
  directory, and no other row. The row's last message is a message of the pair that no
  message of the pair is newer than, its unread count is the number of unread messages of
  the pair addressed to the user, its total is the number of messages of the pair, and it
  carries the peer's account. The rows are in descending order of their last message's
  \<^verbatim>\<open>createdAt\<close>.
\<close>

theorem getConversations_summary:
  "distinct (map g_id (getConversations e st))
   \<and> set (map g_id (getConversations e st))
       = {p. users st p \<noteq> None \<and> (\<exists>m\<in>set (messages st). between (req_user e) p m)}
   \<and> (\<forall>c\<in>set (getConversations e st).
         lastMessage c \<in> set (messages st)
         \<and> between (req_user e) (g_id c) (lastMessage c)
         \<and> (\<forall>m\<in>set (messages st). between (req_user e) (g_id c) m
               \<longrightarrow> createdAt m \<le> createdAt (lastMessage c))
         \<and> unreadCount c
             = length (filter (\<lambda>m. between (req_user e) (g_id c) m
                 \<and> receiver m = req_user e \<and> \<not> isRead m) (messages st))
         \<and> totalMessages c = length (filter (between (req_user e) (g_id c)) (messages st))
         \<and> c_user c = users st (g_id c))
   \<and> sorted (map (\<lambda>c. - createdAt (lastMessage c)) (getConversations e st))"
proof -
  let ?u = "req_user e"
  let ?docs = "sort_desc createdAt (filter (\<lambda>m. sender m = ?u \<or> receiver m = ?u) (messages st))"
  let ?G = "group_stage ?u ?docs"
  have ids: "map g_id (lookup_unwind (users st) ?G)
      = filter (\<lambda>k. users st k \<noteq> None) (map g_id ?G)"
    by (rule lookup_unwind_ids)
  have A: "distinct (map g_id (getConversations e st))"
    using group_stage_ids[of ?u ?docs]
    by (simp add: getConversations_def Let_def distinct_map_sort_desc ids)
  have "set (map g_id (getConversations e st)) = set (map g_id (lookup_unwind (users st) ?G))"
    by (simp add: getConversations_def Let_def)
  also have "\<dots> = {k \<in> set (map g_id ?G). users st k \<noteq> None}"
    unfolding ids by simp
  also have "\<dots> = {p. users st p \<noteq> None \<and> (\<exists>m\<in>set (messages st). between ?u p m)}"
    using group_stage_ids[of ?u ?docs] unfolding peers_of_docs by auto
  finally have B: "set (map g_id (getConversations e st))
       = {p. users st p \<noteq> None \<and> (\<exists>m\<in>set (messages st). between ?u p m)}" .
  have D: "sorted (map (\<lambda>c. - createdAt (lastMessage c)) (getConversations e st))"
    by (simp add: getConversations_def Let_def sorted_sort_desc)
  have C: "\<forall>c\<in>set (getConversations e st).
         lastMessage c \<in> set (messages st)
         \<and> between ?u (g_id c) (lastMessage c)
         \<and> (\<forall>m\<in>set (messages st). between ?u (g_id c) m
               \<longrightarrow> createdAt m \<le> createdAt (lastMessage c))
         \<and> unreadCount c
             = length (filter (\<lambda>m. between ?u (g_id c) m
                 \<and> receiver m = ?u \<and> \<not> isRead m) (messages st))
         \<and> totalMessages c = length (filter (between ?u (g_id c)) (messages st))
         \<and> c_user c = users st (g_id c)"
  proof (rule ballI)
    fix c assume c: "c \<in> set (getConversations e st)"
    let ?B = "filter (between ?u (g_id c)) (messages st)"
    note r = getConversations_row[OF c]
    from r obtain b where b: "b \<in> set ?B" by (cases ?B) auto
    from hd_sort_desc[OF b, of createdAt] r
    have l: "lastMessage c \<in> set ?B" by simp
    have mx: "\<forall>m\<in>set (messages st). between ?u (g_id c) m
               \<longrightarrow> createdAt m \<le> createdAt (lastMessage c)"
    proof (intro ballI impI)
      fix m assume "m \<in> set (messages st)" "between ?u (g_id c) m"
      then have "m \<in> set ?B" by simp
      from hd_sort_desc[OF this, of createdAt] r
      show "createdAt m \<le> createdAt (lastMessage c)" by simp
    qed
    show "lastMessage c \<in> set (messages st)
         \<and> between ?u (g_id c) (lastMessage c)
         \<and> (\<forall>m\<in>set (messages st). between ?u (g_id c) m
               \<longrightarrow> createdAt m \<le> createdAt (lastMessage c))
         \<and> unreadCount c
             = length (filter (\<lambda>m. between ?u (g_id c) m
                 \<and> receiver m = ?u \<and> \<not> isRead m) (messages st))
         \<and> totalMessages c = length (filter (between ?u (g_id c)) (messages st))
         \<and> c_user c = users st (g_id c)"
      using l mx r by simp
  qed
  show ?thesis by (intro conjI A B C D)
qed


lemma alice_conversations:
  "getConversations (env_of alice ''Alice'' 1000) chat_store
     = [\<lparr> g_id = bob, lastMessage = msg 3 bob alice ''there?'' 40 False, unreadCount = 2,
          totalMessages = 3,
          c_user = Some \<lparr> name = ''Bob'', email = ''bob@example.com'', profilePicture = [] \<rparr> \<rparr>]"
  by (simp add: getConversations_def sort_desc_def group_stage_def lookup_unwind_def
        peer_of_def unread_inc_def chat_messages msg_def Let_def)

theorem getConversations_summary_witness:
  "getConversations (env_of alice ''Alice'' 1000) chat_store
     = [\<lparr> g_id = bob, lastMessage = msg 3 bob alice ''there?'' 40 False, unreadCount = 2,
          totalMessages = 3,
          c_user = Some \<lparr> name = ''Bob'', email = ''bob@example.com'', profilePicture = [] \<rparr> \<rparr>]
   \<and> msg 3 bob alice ''there?'' 40 False \<in> set (messages chat_store)
   \<and> between alice bob (msg 3 bob alice ''there?'' 40 False)
   \<and> msg 1 bob alice ''hello'' 20 False \<in> set (messages chat_store)
   \<and> between alice bob (msg 1 bob alice ''hello'' 20 False)
   \<and> createdAt (msg 1 bob alice ''hello'' 20 False)
       \<le> createdAt (msg 3 bob alice ''there?'' 40 False)
   \<and> length (filter (\<lambda>m. between alice bob m \<and> receiver m = alice \<and> \<not> isRead m)
        (messages chat_store)) = 2
   \<and> length (filter (between alice bob) (messages chat_store)) = 3
   \<and> users chat_store bob \<noteq> None"
proof -
  have m: "msg 1 bob alice ''hello'' 20 False \<in> set (messages chat_store)"
    "between alice bob (msg 1 bob alice ''hello'' 20 False)"
    by (simp_all add: chat_messages between_def msg_def)
  have u: "req_user (env_of alice ''Alice'' 1000) = alice" by simp
  show ?thesis
    using getConversations_summary[of "env_of alice ''Alice'' 1000" chat_store] m
    by (simp add: alice_conversations u)
qed

text \<open>
  C1 as stated fails for a peer whose account has been deleted: Carol's message to Alice
  is in the collection, and Alice's conversation list has no row for Carol.
\<close>

theorem getConversations_summary_counterexample:
  "msg 2 carol alice ''hey'' 30 False \<in> set (messages chat_store)
   \<and> sender (msg 2 carol alice ''hey'' 30 False) = carol
   \<and> receiver (msg 2 carol alice ''hey'' 30 False) = req_user (env_of alice ''Alice'' 1000)
   \<and> carol \<notin> set (map g_id (getConversations (env_of alice ''Alice'' 1000) chat_store))"
  by (simp add: alice_conversations) (simp add: chat_messages msg_def)

section \<open>The store invariant is kept\<close>

lemma wf_store_same:
  "wf_store st \<Longrightarrow> messages st' = messages st \<Longrightarrow> wf_store st'"
  by (simp add: wf_store_def)

lemma wf_store_emit [simp]: "wf_store (emit rm nm p st) = wf_store st"
  by (simp add: wf_store_def)

lemma wf_store_empty: "wf_store empty_store"
  by (simp add: wf_store_def)

text \<open>A send keeps ids unique when the id given to the new document is a fresh one.\<close>

lemma sendMessage_wf_store:
  assumes "wf_store st" and "new_id e \<notin> m_id ` set (messages st)"
  shows "wf_store (snd (sendMessage e rq st))"
proof (cases "fst (sendMessage e rq st)")
  case (Inl err)
  show ?thesis
    by (rule wf_store_same[OF assms(1) sendMessage_failure_messages[OF Inl]])
next
  case (Inr m)
  from sendMessage_success[OF Inr]
  have "messages (snd (sendMessage e rq st)) = messages st @ [m]" "m_id m = new_id e"
    by simp_all
  then show ?thesis using assms by (simp add: wf_store_def)
qed

lemma delete_first_subset: "set (delete_first p xs) \<subseteq> set xs"
  by (induction xs) auto

lemma delete_first_distinct_map:
  "distinct (map f xs) \<Longrightarrow> distinct (map f (delete_first p xs))"
proof (induction xs)
  case Nil
  then show ?case by simp
next
  case (Cons x xs)
  then show ?case using delete_first_subset[of p xs] by (auto simp: image_iff)
qed

lemma deleteMessage_wf_store:
  assumes "wf_store st"
  shows "wf_store (snd (deleteMessage e i st))"
proof -
  have "wf_store (st \<lparr> messages := delete_first (\<lambda>m. m_id m = k) (messages st) \<rparr>)" for k
    using assms by (simp add: wf_store_def delete_first_distinct_map)
  then show ?thesis
    using assms
    by (simp add: deleteMessage_def findByIdAndDelete_def split: option.splits)
qed

lemma updateMany_ids: "map m_id (updateMany p (mark_read t) xs) = map m_id xs"
  by (induction xs) (simp_all add: updateMany_def mark_read_def)

lemma updateMany_wf_store:
  "wf_store st \<Longrightarrow> wf_store (st \<lparr> messages := updateMany p (mark_read t) (messages st) \<rparr>)"
  by (simp add: wf_store_def updateMany_ids)

lemma getConversation_wf_store:
  assumes "wf_store st"
  shows "wf_store (snd (getConversation e rq st))"
  using assms
  by (simp add: getConversation_def Let_def updateMany_wf_store
      split: option.splits sum.splits)

end
